theory Spec2Isabelle
  imports Complex_Main
begin

section \<open>Data model\<close>

text \<open>
  The agentic exploration engine of pd-scout: \<^verbatim>\<open>AgenticAnalyzer\<close> (core/analyzer.ts) and
  \<^verbatim>\<open>ToolRegistry\<close> (core/tools.ts). Everything outside these two classes is a parameter:
  the chat-completion client, \<^verbatim>\<open>JSON.parse\<close>, the repository and documentation handlers.
  A thrown exception is a value: \<open>Inl\<close> of its message.
\<close>

subsection \<open>JSON values\<close>

text \<open>
  What \<^verbatim>\<open>JSON.parse\<close> returns. Numbers are kept as integers: no definition below looks
  inside a number.
\<close>

datatype json =
    JNull
  | JBool bool
  | JNumber int
  | JString string
  | JArray "json list"
  | JObject "(string \<times> json) list"

text \<open>
  The message of the TypeError that JavaScript raises on a property read of \<^verbatim>\<open>null\<close>
  (the text is the engine's, here V8's).
\<close>

definition type_error_null :: "string \<Rightarrow> string" where
  "type_error_null p =
     ''Cannot read properties of null (reading '' @ [CHR 0x27] @ p @ [CHR 0x27] @ '')''"

text \<open>
  A property read \<^verbatim>\<open>v.p\<close>, for the property names the engine reads (\<^verbatim>\<open>pattern\<close>,
  \<^verbatim>\<open>files\<close>, \<^verbatim>\<open>filePattern\<close>, \<^verbatim>\<open>path\<close>, \<^verbatim>\<open>opportunities\<close>, \<^verbatim>\<open>patterns\<close>, \<^verbatim>\<open>summary\<close>):
  it throws on \<^verbatim>\<open>null\<close>, looks the key up in an object, and is \<^verbatim>\<open>undefined\<close> (\<open>None\<close>) on
  every other value.
\<close>

fun get_property :: "json \<Rightarrow> string \<Rightarrow> string + json option" where
  "get_property JNull p = Inl (type_error_null p)"
| "get_property (JObject kvs) p = Inr (map_of kvs p)"
| "get_property (JBool b) p = Inr None"
| "get_property (JNumber n) p = Inr None"
| "get_property (JString s) p = Inr None"
| "get_property (JArray vs) p = Inr None"

subsection \<open>Messages, requests and responses of the chat-completion contract\<close>

record tool_call =
  call_id :: string
  function_name :: string
  function_arguments :: string

record response_message =
  content :: "string option"
  tool_calls :: "tool_call list option"

datatype message =
    SystemMessage string
  | UserMessage string
  | AssistantMessage response_message
  | ToolMessage string string

datatype tool_choice = Auto | Function string

record request =
  request_model :: string
  messages :: "message list"
  request_tools :: "string list"
  tool_choice :: tool_choice

text \<open>The token counts the provider reports are natural numbers.\<close>

record completion_usage =
  prompt_tokens :: nat
  completion_tokens :: nat
  total_tokens :: nat

text \<open>
  \<open>choices\<close> holds the message of each choice; \<^verbatim>\<open>response.choices[0]?.message\<close> is the head
  of the list, absent when the list is empty.
\<close>

record response =
  choices :: "response_message list"
  response_usage :: "completion_usage option"

subsection \<open>Configuration, usage metrics and results\<close>

text \<open>
  The fields of \<^verbatim>\<open>config.analysis\<close> that the engine reads. The schema types the budget and the
  round limit as numbers; they are natural numbers here.
\<close>

record config =
  model :: string
  tokenBudget :: nat
  maxRounds :: nat

record usage_metrics =
  totalTokens :: nat
  promptTokens :: nat
  completionTokens :: nat
  estimatedCost :: real
  rounds :: nat

datatype analysis_status = Complete | Incomplete | Error

record analysis_payload =
  opportunities :: "json option"
  patterns :: "json option"
  summary :: "json option"

text \<open>
  \<^verbatim>\<open>AnalysisResult\<close> without its \<^verbatim>\<open>metadata\<close> and \<^verbatim>\<open>config\<close> blocks (clock reads and copies
  of the configuration).
\<close>

record analysis_result =
  results :: analysis_payload
  result_usage :: usage_metrics
  status :: analysis_status
  error :: "string option"

subsection \<open>Collaborators\<close>

text \<open>
  A collaborator call returns \<open>Inr\<close> of its result as \<^verbatim>\<open>JSON.stringify\<close> prints it, or
  \<open>Inl\<close> of the message of the error it throws. An argument is \<open>None\<close> when the property
  read gave \<^verbatim>\<open>undefined\<close>.
\<close>

record repo_handler =
  listFiles :: "json option \<Rightarrow> string + string"
  readFiles :: "json option \<Rightarrow> string + string"
  searchCode :: "json option \<Rightarrow> json option \<Rightarrow> string + string"
  getDependencies :: "string + string"

record context_handler =
  listDocuments :: "string + string"
  readDocument :: "json option \<Rightarrow> string + string"

record env =
  create :: "request \<Rightarrow> string + response"
  JSON_parse :: "string \<Rightarrow> string + json"
  repoHandler :: repo_handler
  contextHandler :: "context_handler option"

section \<open>ToolRegistry\<close>

record tool_registry =
  finishCalled :: bool
  analysisResults :: json

definition new_ToolRegistry :: tool_registry where
  "new_ToolRegistry = \<lparr>finishCalled = False, analysisResults = JNull\<rparr>"

text \<open>The names of the tool definitions sent with every request.\<close>

definition getDefinitions :: "env \<Rightarrow> string list" where
  "getDefinitions e =
     [''list_files'', ''read_files'', ''search_code'', ''get_dependencies'', ''finish_analysis'']
     @ (case contextHandler e of
          None \<Rightarrow> []
        | Some ch \<Rightarrow> [''list_context_docs'', ''read_context_doc''])"

text \<open>\<^verbatim>\<open>JSON.stringify({ status: 'Analysis complete' })\<close>.\<close>

definition finish_result :: string where
  "finish_result =
     ''{'' @ [CHR 0x22] @ ''status'' @ [CHR 0x22] @ '':'' @ [CHR 0x22] @ ''Analysis complete''
       @ [CHR 0x22] @ ''}''"

text \<open>
  \<^verbatim>\<open>ToolRegistry.execute(name, args)\<close>: the switch over the tool name. The first component is
  the returned value or the thrown error, the second the registry after the call.
\<close>

definition execute ::
  "env \<Rightarrow> tool_registry \<Rightarrow> string \<Rightarrow> json \<Rightarrow> (string + string) \<times> tool_registry" where
  "execute e tr name args =
     (if name = ''list_files'' then
        (case get_property args ''pattern'' of
           Inl err \<Rightarrow> (Inl err, tr)
         | Inr p \<Rightarrow> (listFiles (repoHandler e) p, tr))
      else if name = ''read_files'' then
        (case get_property args ''files'' of
           Inl err \<Rightarrow> (Inl err, tr)
         | Inr fs \<Rightarrow> (readFiles (repoHandler e) fs, tr))
      else if name = ''search_code'' then
        (case get_property args ''pattern'' of
           Inl err \<Rightarrow> (Inl err, tr)
         | Inr p \<Rightarrow>
             (case get_property args ''filePattern'' of
                Inl err \<Rightarrow> (Inl err, tr)
              | Inr fp \<Rightarrow> (searchCode (repoHandler e) p fp, tr)))
      else if name = ''get_dependencies'' then (getDependencies (repoHandler e), tr)
      else if name = ''list_context_docs'' then
        (case contextHandler e of
           None \<Rightarrow> (Inl ''No context handler available'', tr)
         | Some ch \<Rightarrow> (listDocuments ch, tr))
      else if name = ''read_context_doc'' then
        (case contextHandler e of
           None \<Rightarrow> (Inl ''No context handler available'', tr)
         | Some ch \<Rightarrow>
             (case get_property args ''path'' of
                Inl err \<Rightarrow> (Inl err, tr)
              | Inr p \<Rightarrow> (readDocument ch p, tr)))
      else if name = ''finish_analysis'' then
        (Inr finish_result, tr\<lparr>finishCalled := True, analysisResults := args\<rparr>)
      else (Inl (''Unknown tool: '' @ name), tr))"

section \<open>AgenticAnalyzer\<close>

text \<open>
  The mutable fields of the analyzer. \<open>sent\<close> is not a field of the class: it logs, in order,
  every request passed to \<^verbatim>\<open>client.chat.completions.create\<close>, so that statements about
  which requests a run sends can be written down.
\<close>

record analyzer =
  tools :: tool_registry
  history :: "message list"
  usage :: usage_metrics
  sent :: "request list"

definition new_AgenticAnalyzer :: analyzer where
  "new_AgenticAnalyzer =
     \<lparr>tools = new_ToolRegistry,
      history = [],
      usage = \<lparr>totalTokens = 0, promptTokens = 0, completionTokens = 0,
               estimatedCost = 0, rounds = 0\<rparr>,
      sent = []\<rparr>"

text \<open>How a void method ends: by returning, or by throwing an error with a message.\<close>

datatype completion = Completed | Thrown string

text \<open>\<^verbatim>\<open>calculateCost\<close>, in exact arithmetic.\<close>

definition calculateCost :: "usage_metrics \<Rightarrow> real" where
  "calculateCost u =
     (let inputCost = (real (promptTokens u) / 1000) * 0.01;
          outputCost = (real (completionTokens u) / 1000) * 0.03
      in inputCost + outputCost)"

text \<open>The body of \<^verbatim>\<open>if (response.usage) { ... }\<close>.\<close>

definition trackUsage :: "usage_metrics \<Rightarrow> completion_usage \<Rightarrow> usage_metrics" where
  "trackUsage u ru =
     (let u1 = u\<lparr>totalTokens := totalTokens u + total_tokens ru\<rparr>;
          u2 = u1\<lparr>promptTokens := promptTokens u1 + prompt_tokens ru\<rparr>;
          u3 = u2\<lparr>completionTokens := completionTokens u2 + completion_tokens ru\<rparr>
      in u3\<lparr>estimatedCost := calculateCost u3\<rparr>)"

text \<open>
  The body of \<^verbatim>\<open>for (const toolCall of message.tool_calls)\<close> in the exploration loop, with
  its try and catch: whatever \<^verbatim>\<open>JSON.parse\<close> or \<^verbatim>\<open>execute\<close> throws becomes the content of the
  tool message.
\<close>

definition dispatchToolCall :: "env \<Rightarrow> analyzer \<Rightarrow> tool_call \<Rightarrow> analyzer" where
  "dispatchToolCall e a toolCall =
     (case JSON_parse e (function_arguments toolCall) of
        Inl err \<Rightarrow>
          a\<lparr>history := history a @ [ToolMessage (call_id toolCall) (''Error: '' @ err)]\<rparr>
      | Inr args \<Rightarrow>
          (case execute e (tools a) (function_name toolCall) args of
             (Inl err, tr) \<Rightarrow>
               a\<lparr>tools := tr,
                 history := history a @ [ToolMessage (call_id toolCall) (''Error: '' @ err)]\<rparr>
           | (Inr result, tr) \<Rightarrow>
               a\<lparr>tools := tr,
                 history := history a @ [ToolMessage (call_id toolCall) result]\<rparr>))"

text \<open>
  The argument of \<^verbatim>\<open>client.chat.completions.create\<close>: the model, the whole history, the
  tool definitions and the tool choice.
\<close>

definition chatRequest :: "env \<Rightarrow> config \<Rightarrow> analyzer \<Rightarrow> tool_choice \<Rightarrow> request" where
  "chatRequest e cfg a choice =
     \<lparr>request_model = model cfg, messages = history a,
      request_tools = getDefinitions e, tool_choice = choice\<rparr>"

definition force_prompt :: string where
  "force_prompt =
     ''You have reached the budget/round limit. Please call finish_analysis now with whatever findings you have gathered so far. ''
     @ ''Include all opportunities you have identified, even if the analysis is not fully complete.''"

text \<open>
  The loop over the tool calls in \<^verbatim>\<open>forceCompletion\<close>: no try, no catch, nothing pushed to
  the history.
\<close>

fun forceToolCalls :: "env \<Rightarrow> analyzer \<Rightarrow> tool_call list \<Rightarrow> completion \<times> analyzer" where
  "forceToolCalls e a [] = (Completed, a)"
| "forceToolCalls e a (toolCall # rest) =
     (case JSON_parse e (function_arguments toolCall) of
        Inl err \<Rightarrow> (Thrown err, a)
      | Inr args \<Rightarrow>
          (case execute e (tools a) (function_name toolCall) args of
             (Inl err, tr) \<Rightarrow> (Thrown err, a\<lparr>tools := tr\<rparr>)
           | (Inr result, tr) \<Rightarrow> forceToolCalls e (a\<lparr>tools := tr\<rparr>) rest))"

definition forceCompletion :: "env \<Rightarrow> config \<Rightarrow> analyzer \<Rightarrow> completion \<times> analyzer" where
  "forceCompletion e cfg a =
     (let a1 = a\<lparr>history := history a @ [UserMessage force_prompt]\<rparr>;
          req = chatRequest e cfg a1 (Function ''finish_analysis'');
          a2 = a1\<lparr>sent := sent a1 @ [req]\<rparr>
      in case create e req of
           Inl err \<Rightarrow> (Thrown err, a2)
         | Inr resp \<Rightarrow>
             (case choices resp of
                [] \<Rightarrow> (Completed, a2)
              | msg # _ \<Rightarrow>
                  (case tool_calls msg of
                     None \<Rightarrow> (Completed, a2)
                   | Some calls \<Rightarrow> forceToolCalls e a2 calls)))"

text \<open>
  One pass through the body of the exploration loop, up to the end of the tool calls
  (\<open>rnd\<close> is the loop variable \<^verbatim>\<open>round\<close>): the round counter, the request with open
  tool choice, the usage, the assistant message and the dispatch of every tool call in
  order.
\<close>

definition explorationRound :: "env \<Rightarrow> config \<Rightarrow> nat \<Rightarrow> analyzer \<Rightarrow> completion \<times> analyzer" where
  "explorationRound e cfg rnd a =
     (let a1 = a\<lparr>usage := (usage a)\<lparr>rounds := rnd + 1\<rparr>\<rparr>;
          req = chatRequest e cfg a1 Auto;
          a2 = a1\<lparr>sent := sent a1 @ [req]\<rparr>
      in case create e req of
           Inl err \<Rightarrow> (Thrown err, a2)
         | Inr resp \<Rightarrow>
             (let a3 = (case response_usage resp of
                          None \<Rightarrow> a2
                        | Some ru \<Rightarrow> a2\<lparr>usage := trackUsage (usage a2) ru\<rparr>)
              in case choices resp of
                   [] \<Rightarrow> (Thrown ''No message in response'', a3)
                 | msg # _ \<Rightarrow>
                     (let a4 = a3\<lparr>history := history a3 @ [AssistantMessage msg]\<rparr>
                      in case tool_calls msg of
                           None \<Rightarrow> (Completed, a4)
                         | Some calls \<Rightarrow> (Completed, foldl (dispatchToolCall e) a4 calls))))"

text \<open>The budget check \<^verbatim>\<open>totalTokens > tokenBudget * 0.8\<close>, in exact arithmetic.\<close>

definition overBudget :: "config \<Rightarrow> analyzer \<Rightarrow> bool" where
  "overBudget cfg a \<longleftrightarrow> real (totalTokens (usage a)) > real (tokenBudget cfg) * 0.8"

function explorationLoop :: "env \<Rightarrow> config \<Rightarrow> nat \<Rightarrow> analyzer \<Rightarrow> completion \<times> analyzer" where
  "explorationLoop e cfg rnd a =
     (if rnd < maxRounds cfg then
        (case explorationRound e cfg rnd a of
           (Thrown err, a') \<Rightarrow> (Thrown err, a')
         | (Completed, a') \<Rightarrow>
             if finishCalled (tools a') then (Completed, a')
             else if overBudget cfg a' then forceCompletion e cfg a'
             else explorationLoop e cfg (rnd + 1) a')
      else forceCompletion e cfg a)"
  by pat_completeness auto
termination
  by (relation "measure (\<lambda>(e, cfg, rnd, a). maxRounds cfg - rnd)") auto

declare explorationLoop.simps [simp del]

text \<open>The result object of the catch block of \<^verbatim>\<open>analyze\<close>.\<close>

definition error_result :: "analyzer \<Rightarrow> string \<Rightarrow> analysis_result" where
  "error_result a err =
     \<lparr>results = \<lparr>opportunities = Some (JArray []), patterns = Some (JArray []),
                 summary = Some (JString ''Analysis failed'')\<rparr>,
      result_usage = usage a,
      status = Error,
      error = Some err\<rparr>"

text \<open>
  \<^verbatim>\<open>analyze\<close> on an analyzer instance \<open>a\<close>, with the two interpolated prompts. It returns the
  result object and the instance after the run.
\<close>

definition analyze ::
  "env \<Rightarrow> config \<Rightarrow> string \<Rightarrow> string \<Rightarrow> analyzer \<Rightarrow> analysis_result \<times> analyzer" where
  "analyze e cfg systemPrompt userPrompt a =
     (let a0 = a\<lparr>history := [SystemMessage systemPrompt, UserMessage userPrompt]\<rparr>
      in case explorationLoop e cfg 0 a0 of
           (Thrown err, a') \<Rightarrow> (error_result a' err, a')
         | (Completed, a') \<Rightarrow>
             (case get_property (analysisResults (tools a')) ''opportunities'' of
                Inl err \<Rightarrow> (error_result a' err, a')
              | Inr opps \<Rightarrow>
                  (case get_property (analysisResults (tools a')) ''patterns'' of
                     Inl err \<Rightarrow> (error_result a' err, a')
                   | Inr pats \<Rightarrow>
                       (case get_property (analysisResults (tools a')) ''summary'' of
                          Inl err \<Rightarrow> (error_result a' err, a')
                        | Inr summ \<Rightarrow>
                            (\<lparr>results = \<lparr>opportunities = opps, patterns = pats,
                                         summary = summ\<rparr>,
                              result_usage = usage a',
                              status = Complete,
                              error = None\<rparr>, a')))))"

section \<open>Notions used in the statements\<close>

text \<open>The analyzer as \<^verbatim>\<open>analyze\<close> hands it to the exploration loop on a fresh instance.\<close>

definition started :: "string \<Rightarrow> string \<Rightarrow> analyzer" where
  "started systemPrompt userPrompt =
     new_AgenticAnalyzer\<lparr>history := [SystemMessage systemPrompt, UserMessage userPrompt]\<rparr>"

text \<open>
  \<open>loopHead e cfg a0 k\<close> is the analyzer at the head of the exploration loop when the loop
  variable is \<open>k\<close>, for the loop started on \<open>a0\<close>; it is \<open>None\<close> when the loop does not get
  there (an earlier round threw, saw the finish flag or went over the budget threshold, or
  \<open>k\<close> is beyond \<open>maxRounds\<close>).
\<close>

fun loopHead :: "env \<Rightarrow> config \<Rightarrow> analyzer \<Rightarrow> nat \<Rightarrow> analyzer option" where
  "loopHead e cfg a0 0 = Some a0"
| "loopHead e cfg a0 (Suc k) =
     (case loopHead e cfg a0 k of
        None \<Rightarrow> None
      | Some a \<Rightarrow>
          if k < maxRounds cfg then
            (case explorationRound e cfg k a of
               (Thrown err, a') \<Rightarrow> None
             | (Completed, a') \<Rightarrow>
                 if finishCalled (tools a') \<or> overBudget cfg a' then None else Some a')
          else None)"

text \<open>
  \<open>roundEnd e cfg a0 k\<close> is the outcome of exploration round \<open>k\<close> (counted from 1, as the
  \<open>rounds\<close> field counts), when the loop runs that round.
\<close>

definition roundEnd :: "env \<Rightarrow> config \<Rightarrow> analyzer \<Rightarrow> nat \<Rightarrow> (completion \<times> analyzer) option" where
  "roundEnd e cfg a0 k =
     (case k of
        0 \<Rightarrow> None
      | Suc r \<Rightarrow>
          (case loopHead e cfg a0 r of
             None \<Rightarrow> None
           | Some a \<Rightarrow> if r < maxRounds cfg then Some (explorationRound e cfg r a) else None))"

text \<open>
  What parsing and executing one tool call gives, and the tool message the exploration
  loop pushes for it. (The registry passed to \<open>execute\<close> does not matter for the value it
  returns or throws.)
\<close>

definition callOutcome :: "env \<Rightarrow> tool_call \<Rightarrow> string + string" where
  "callOutcome e toolCall =
     (case JSON_parse e (function_arguments toolCall) of
        Inl err \<Rightarrow> Inl err
      | Inr args \<Rightarrow> fst (execute e new_ToolRegistry (function_name toolCall) args))"

definition toolResultMessage :: "env \<Rightarrow> tool_call \<Rightarrow> message" where
  "toolResultMessage e toolCall =
     ToolMessage (call_id toolCall)
       (case callOutcome e toolCall of Inl err \<Rightarrow> ''Error: '' @ err | Inr result \<Rightarrow> result)"

text \<open>
  The parsed arguments of the \<^verbatim>\<open>finish_analysis\<close> calls of a batch that reach \<open>execute\<close>, in
  the order of the batch.
\<close>

definition finishPayloads :: "env \<Rightarrow> tool_call list \<Rightarrow> json list" where
  "finishPayloads e calls =
     concat (map (\<lambda>toolCall.
        if function_name toolCall = ''finish_analysis'' then
          (case JSON_parse e (function_arguments toolCall) of
             Inl err \<Rightarrow> []
           | Inr args \<Rightarrow> [args])
        else []) calls)"


text \<open>The three token counts of one usage record are at most those of another.\<close>

definition usage_le :: "usage_metrics \<Rightarrow> usage_metrics \<Rightarrow> bool" where
  "usage_le u u' \<longleftrightarrow>
     totalTokens u \<le> totalTokens u' \<and> promptTokens u \<le> promptTokens u' \<and>
     completionTokens u \<le> completionTokens u'"

text \<open>The invariant that \<open>estimatedCost\<close> is the cost of the accumulated tokens.\<close>

definition costCurrent :: "usage_metrics \<Rightarrow> bool" where
  "costCurrent u \<longleftrightarrow> estimatedCost u = calculateCost u"

section \<open>Concrete runs\<close>

text \<open>
  A provider that answers exploration round \<open>k\<close> (counted from 0: the history then holds
  \<open>k\<close> assistant messages) with the \<open>k\<close>-th response of a script, fails when the script is
  used up, and answers the forcing request with a fixed response.
\<close>

fun is_assistant :: "message \<Rightarrow> bool" where
  "is_assistant (AssistantMessage m) = True"
| "is_assistant (SystemMessage s) = False"
| "is_assistant (UserMessage s) = False"
| "is_assistant (ToolMessage i c) = False"

definition scripted :: "response list \<Rightarrow> response \<Rightarrow> request \<Rightarrow> string + response" where
  "scripted rs forced req =
     (case tool_choice req of
        Function n \<Rightarrow> Inr forced
      | Auto \<Rightarrow>
          (let k = length (filter is_assistant (messages req))
           in if k < length rs then Inr (rs ! k) else Inl ''connection reset''))"

text \<open>\<^verbatim>\<open>JSON.parse\<close> on the four argument texts the concrete runs use.\<close>

definition demo_parse :: "string \<Rightarrow> string + json" where
  "demo_parse s =
     (if s = ''null'' then Inr JNull
      else if s = ''{}'' then Inr (JObject [])
      else if s = ''[]'' then Inr (JArray [])
      else Inl ''Unexpected end of JSON input'')"

definition demo_repo :: repo_handler where
  "demo_repo =
     \<lparr>listFiles = (\<lambda>p. Inr ''[]''),
      readFiles = (\<lambda>fs. Inr ''{}''),
      searchCode = (\<lambda>p fp. Inl ''file not found''),
      getDependencies = Inr ''{}''\<rparr>"

definition demo_env :: "response list \<Rightarrow> response \<Rightarrow> env" where
  "demo_env rs forced =
     \<lparr>create = scripted rs forced, JSON_parse = demo_parse,
      repoHandler = demo_repo, contextHandler = None\<rparr>"

definition text_reply :: "nat \<Rightarrow> response" where
  "text_reply n =
     \<lparr>choices = [\<lparr>content = Some ''thinking'', tool_calls = None\<rparr>],
      response_usage = Some \<lparr>prompt_tokens = n, completion_tokens = 0, total_tokens = n\<rparr>\<rparr>"

definition calls_reply :: "nat \<Rightarrow> tool_call list \<Rightarrow> response" where
  "calls_reply n calls =
     \<lparr>choices = [\<lparr>content = None, tool_calls = Some calls\<rparr>],
      response_usage = Some \<lparr>prompt_tokens = n, completion_tokens = 0, total_tokens = n\<rparr>\<rparr>"

definition silent_reply :: response where
  "silent_reply =
     \<lparr>choices = [\<lparr>content = Some ''thinking'', tool_calls = None\<rparr>], response_usage = None\<rparr>"

definition call :: "string \<Rightarrow> string \<Rightarrow> string \<Rightarrow> tool_call" where
  "call i n args = \<lparr>call_id = i, function_name = n, function_arguments = args\<rparr>"

definition demo_cfg :: "nat \<Rightarrow> config" where
  "demo_cfg n = \<lparr>model = ''gpt-4-turbo'', tokenBudget = 1000, maxRounds = n\<rparr>"

section \<open>The tool registry\<close>

lemma execute_finish:
  "execute e tr ''finish_analysis'' args =
     (Inr finish_result, tr\<lparr>finishCalled := True, analysisResults := args\<rparr>)"
  by (simp add: execute_def)

lemma execute_not_finish:
  "name \<noteq> ''finish_analysis'' \<Longrightarrow> snd (execute e tr name args) = tr"
  by (simp add: execute_def split: sum.splits option.splits)

lemma execute_value_any_registry:
  "fst (execute e tr name args) = fst (execute e tr' name args)"
  by (simp add: execute_def split: sum.splits option.splits)


section \<open>One tool call of an exploration round\<close>

lemma dispatch_usage [simp]: "usage (dispatchToolCall e a tc) = usage a"
  by (simp add: dispatchToolCall_def split: sum.splits prod.splits)

lemma dispatch_sent [simp]: "sent (dispatchToolCall e a tc) = sent a"
  by (simp add: dispatchToolCall_def split: sum.splits prod.splits)

lemma dispatch_history:
  "history (dispatchToolCall e a tc) = history a @ [toolResultMessage e tc]"
proof (cases "JSON_parse e (function_arguments tc)")
  case (Inl err)
  then show ?thesis
    by (simp add: dispatchToolCall_def toolResultMessage_def callOutcome_def)
next
  case (Inr args)
  obtain v tr where ex: "execute e (tools a) (function_name tc) args = (v, tr)"
    by (cases "execute e (tools a) (function_name tc) args")
  have "fst (execute e new_ToolRegistry (function_name tc) args) = v"
    using execute_value_any_registry [of e new_ToolRegistry "function_name tc" args "tools a"] ex
    by simp
  then show ?thesis using Inr ex
    by (cases v) (simp_all add: dispatchToolCall_def toolResultMessage_def callOutcome_def)
qed

lemma dispatch_tools:
  "tools (dispatchToolCall e a tc) =
     (case finishPayloads e [tc] of
        [] \<Rightarrow> tools a
      | args # _ \<Rightarrow> (tools a)\<lparr>finishCalled := True, analysisResults := args\<rparr>)"
proof (cases "JSON_parse e (function_arguments tc)")
  case (Inl err)
  then show ?thesis by (simp add: dispatchToolCall_def finishPayloads_def)
next
  case (Inr args)
  show ?thesis
  proof (cases "function_name tc = ''finish_analysis''")
    case True
    then show ?thesis using Inr
      by (simp add: dispatchToolCall_def finishPayloads_def execute_finish)
  next
    case False
    obtain v tr where ex: "execute e (tools a) (function_name tc) args = (v, tr)"
      by (cases "execute e (tools a) (function_name tc) args")
    have "tr = tools a" using execute_not_finish [OF False, of e "tools a" args] ex by simp
    then show ?thesis using Inr False ex
      by (cases v) (simp_all add: dispatchToolCall_def finishPayloads_def)
  qed
qed

lemma finishPayloads_Nil [simp]: "finishPayloads e [] = []"
  by (simp add: finishPayloads_def)

lemma finishPayloads_append [simp]:
  "finishPayloads e (xs @ ys) = finishPayloads e xs @ finishPayloads e ys"
  by (simp add: finishPayloads_def)

lemma finishPayloads_single_cases:
  "finishPayloads e [tc] = [] \<or> (\<exists>args. finishPayloads e [tc] = [args])"
  by (simp add: finishPayloads_def split: sum.splits)

section \<open>A batch of tool calls of an exploration round\<close>

lemma foldl_dispatch_usage [simp]: "usage (foldl (dispatchToolCall e) a calls) = usage a"
  by (induction calls arbitrary: a) simp_all

lemma foldl_dispatch_sent [simp]: "sent (foldl (dispatchToolCall e) a calls) = sent a"
  by (induction calls arbitrary: a) simp_all

lemma foldl_dispatch_history:
  "history (foldl (dispatchToolCall e) a calls) = history a @ map (toolResultMessage e) calls"
  by (induction calls arbitrary: a) (simp_all add: dispatch_history)

lemma foldl_dispatch_tools:
  "tools (foldl (dispatchToolCall e) a calls) =
     (if finishPayloads e calls = [] then tools a
      else (tools a)\<lparr>finishCalled := True, analysisResults := last (finishPayloads e calls)\<rparr>)"
proof (induction calls rule: rev_induct)
  case Nil
  then show ?case by simp
next
  case (snoc tc calls)
  from finishPayloads_single_cases [of e tc] show ?case
  proof
    assume "finishPayloads e [tc] = []"
    then show ?thesis using snoc by (simp add: dispatch_tools)
  next
    assume "\<exists>args. finishPayloads e [tc] = [args]"
    then obtain args where "finishPayloads e [tc] = [args]" ..
    then show ?thesis using snoc by (simp add: dispatch_tools)
  qed
qed

section \<open>One exploration round\<close>

lemma chatRequest_usage [simp]: "chatRequest e cfg (a\<lparr>usage := u\<rparr>) c = chatRequest e cfg a c"
  by (simp add: chatRequest_def)

lemma chatRequest_choice [simp]: "tool_choice (chatRequest e cfg a c) = c"
  by (simp add: chatRequest_def)

lemma explorationRound_sent:
  "sent (snd (explorationRound e cfg rnd a)) = sent a @ [chatRequest e cfg a Auto]"
  by (simp add: explorationRound_def Let_def split: sum.splits list.splits option.splits)

lemma explorationRound_rounds:
  "rounds (usage (snd (explorationRound e cfg rnd a))) = rnd + 1"
  by (simp add: explorationRound_def Let_def trackUsage_def
      split: sum.splits list.splits option.splits)

lemma explorationRound_totalTokens:
  "totalTokens (usage a) \<le> totalTokens (usage (snd (explorationRound e cfg rnd a)))"
  by (simp add: explorationRound_def Let_def trackUsage_def
      split: sum.splits list.splits option.splits)

lemma explorationRound_promptTokens:
  "promptTokens (usage a) \<le> promptTokens (usage (snd (explorationRound e cfg rnd a)))"
  by (simp add: explorationRound_def Let_def trackUsage_def
      split: sum.splits list.splits option.splits)

lemma explorationRound_completionTokens:
  "completionTokens (usage a) \<le> completionTokens (usage (snd (explorationRound e cfg rnd a)))"
  by (simp add: explorationRound_def Let_def trackUsage_def
      split: sum.splits list.splits option.splits)

lemma explorationRound_costCurrent:
  "costCurrent (usage a) \<Longrightarrow> costCurrent (usage (snd (explorationRound e cfg rnd a)))"
  by (simp add: explorationRound_def Let_def trackUsage_def costCurrent_def calculateCost_def
      split: sum.splits list.splits option.splits)

lemma cost_mono:
  "costCurrent u \<Longrightarrow> costCurrent u' \<Longrightarrow> promptTokens u \<le> promptTokens u' \<Longrightarrow>
   completionTokens u \<le> completionTokens u' \<Longrightarrow> estimatedCost u \<le> estimatedCost u'"
  by (simp add: costCurrent_def calculateCost_def Let_def add_mono)

lemma explorationRound_batch:
  assumes "create e (chatRequest e cfg a Auto) = Inr resp"
    and "choices resp = msg # others"
    and "tool_calls msg = Some calls"
  shows "fst (explorationRound e cfg rnd a) = Completed"
    and "history (snd (explorationRound e cfg rnd a)) =
           history a @ AssistantMessage msg # map (toolResultMessage e) calls"
    and "tools (snd (explorationRound e cfg rnd a)) =
           (if finishPayloads e calls = [] then tools a
            else (tools a)\<lparr>finishCalled := True,
                            analysisResults := last (finishPayloads e calls)\<rparr>)"
  using assms
  by (simp_all add: explorationRound_def Let_def foldl_dispatch_history foldl_dispatch_tools
      split: option.splits)

section \<open>The forcing round\<close>

lemma forceToolCalls_usage [simp]: "usage (snd (forceToolCalls e a calls)) = usage a"
  by (induction calls arbitrary: a) (simp_all split: sum.splits prod.splits)

lemma forceToolCalls_history [simp]: "history (snd (forceToolCalls e a calls)) = history a"
  by (induction calls arbitrary: a) (simp_all split: sum.splits prod.splits)

lemma forceToolCalls_sent [simp]: "sent (snd (forceToolCalls e a calls)) = sent a"
  by (induction calls arbitrary: a) (simp_all split: sum.splits prod.splits)

lemma forceCompletion_usage: "usage (snd (forceCompletion e cfg a)) = usage a"
  by (simp add: forceCompletion_def Let_def split: sum.splits list.splits option.splits)

lemma forceCompletion_history:
  "history (snd (forceCompletion e cfg a)) = history a @ [UserMessage force_prompt]"
  by (simp add: forceCompletion_def Let_def split: sum.splits list.splits option.splits)

lemma forceCompletion_sent:
  "sent (snd (forceCompletion e cfg a)) =
     sent a @ [chatRequest e cfg (a\<lparr>history := history a @ [UserMessage force_prompt]\<rparr>)
                 (Function ''finish_analysis'')]"
  by (simp add: forceCompletion_def Let_def split: sum.splits list.splits option.splits)

section \<open>The exploration loop\<close>

lemma explorationLoop_exit:
  "\<not> rnd < maxRounds cfg \<Longrightarrow> explorationLoop e cfg rnd a = forceCompletion e cfg a"
  by (subst explorationLoop.simps) simp

lemma explorationLoop_thrown:
  "rnd < maxRounds cfg \<Longrightarrow> explorationRound e cfg rnd a = (Thrown err, a') \<Longrightarrow>
   explorationLoop e cfg rnd a = (Thrown err, a')"
  by (subst explorationLoop.simps) simp

lemma explorationLoop_completed:
  "rnd < maxRounds cfg \<Longrightarrow> explorationRound e cfg rnd a = (Completed, a') \<Longrightarrow>
   explorationLoop e cfg rnd a =
     (if finishCalled (tools a') then (Completed, a')
      else if overBudget cfg a' then forceCompletion e cfg a'
      else explorationLoop e cfg (rnd + 1) a')"
  by (subst explorationLoop.simps) simp

lemma loopHead_loop:
  "loopHead e cfg a0 k = Some a \<Longrightarrow> explorationLoop e cfg 0 a0 = explorationLoop e cfg k a"
proof (induction k arbitrary: a)
  case 0
  then show ?case by simp
next
  case (Suc k)
  from Suc.prems obtain b where b: "loopHead e cfg a0 k = Some b"
    by (auto split: option.splits)
  from Suc.prems b have lt: "k < maxRounds cfg"
    by (auto split: if_splits)
  from Suc.prems b lt have r: "explorationRound e cfg k b = (Completed, a)"
    and nf: "\<not> finishCalled (tools a)" and nb: "\<not> overBudget cfg a"
    by (auto split: prod.splits completion.splits if_splits)
  have "explorationLoop e cfg 0 a0 = explorationLoop e cfg k b" by (rule Suc.IH [OF b])
  also have "\<dots> = explorationLoop e cfg (Suc k) a"
    using explorationLoop_completed [OF lt r] nf nb by simp
  finally show ?case .
qed

lemma loopHead_Suc_cases:
  assumes "loopHead e cfg a0 (Suc k) = Some a"
  obtains b where "loopHead e cfg a0 k = Some b" and "k < maxRounds cfg"
    and "explorationRound e cfg k b = (Completed, a)"
    and "\<not> finishCalled (tools a)" and "\<not> overBudget cfg a"
proof -
  from assms obtain b where b: "loopHead e cfg a0 k = Some b"
    by (auto split: option.splits)
  from assms b have lt: "k < maxRounds cfg"
    by (auto split: if_splits)
  from assms b lt have "explorationRound e cfg k b = (Completed, a)"
    and "\<not> finishCalled (tools a)" and "\<not> overBudget cfg a"
    by (auto split: prod.splits completion.splits if_splits)
  with b lt show thesis using that by blast
qed

lemma loopHead_le:
  assumes "loopHead e cfg a0 k = Some a"
  shows "k \<le> maxRounds cfg"
proof (cases k)
  case 0
  then show ?thesis by simp
next
  case (Suc j)
  with assms have "loopHead e cfg a0 (Suc j) = Some a" by simp
  then have "j < maxRounds cfg" by (rule loopHead_Suc_cases)
  with Suc show ?thesis by simp
qed

lemma loopHead_None_mono:
  "loopHead e cfg a0 k = None \<Longrightarrow> k \<le> k' \<Longrightarrow> loopHead e cfg a0 k' = None"
  by (induction k' ) (auto simp: le_Suc_eq)

lemma loopHead_Some_down:
  "loopHead e cfg a0 k' = Some a' \<Longrightarrow> k \<le> k' \<Longrightarrow> \<exists>a. loopHead e cfg a0 k = Some a"
  using loopHead_None_mono [of e cfg a0 k k'] by (cases "loopHead e cfg a0 k") auto

lemma loopHead_invariant:
  assumes "loopHead e cfg a0 k = Some a"
    and "P 0 a0"
    and "\<And>j b a'. P j b \<Longrightarrow> j < maxRounds cfg \<Longrightarrow>
           explorationRound e cfg j b = (Completed, a') \<Longrightarrow>
           \<not> finishCalled (tools a') \<Longrightarrow> \<not> overBudget cfg a' \<Longrightarrow> P (Suc j) a'"
  shows "P k a"
  using assms(1)
proof (induction k arbitrary: a)
  case 0
  then show ?case using assms(2) by simp
next
  case (Suc k)
  from Suc.prems obtain b where "loopHead e cfg a0 k = Some b" and "k < maxRounds cfg"
    and "explorationRound e cfg k b = (Completed, a)"
    and "\<not> finishCalled (tools a)" and "\<not> overBudget cfg a"
    by (rule loopHead_Suc_cases)
  then show ?case using Suc.IH assms(3) by blast
qed

lemma loopHead_costCurrent:
  assumes "loopHead e cfg a0 k = Some a" and "costCurrent (usage a0)"
  shows "costCurrent (usage a)"
proof (rule loopHead_invariant [OF assms(1), where P = "\<lambda>j b. costCurrent (usage b)"])
  show "costCurrent (usage a0)" by (rule assms(2))
next
  fix j b a'
  assume "costCurrent (usage b)" and "explorationRound e cfg j b = (Completed, a')"
  then show "costCurrent (usage a')"
    using explorationRound_costCurrent [of b e cfg j] by simp
qed

lemma loopHead_sent:
  assumes "loopHead e cfg a0 k = Some a" and "sent a0 = []"
  shows "length (sent a) = k \<and> (\<forall>q\<in>set (sent a). tool_choice q = Auto)"
proof (rule loopHead_invariant [OF assms(1),
      where P = "\<lambda>j b. length (sent b) = j \<and> (\<forall>q\<in>set (sent b). tool_choice q = Auto)"])
  show "length (sent a0) = 0 \<and> (\<forall>q\<in>set (sent a0). tool_choice q = Auto)"
    using assms(2) by simp
next
  fix j b a'
  assume "length (sent b) = j \<and> (\<forall>q\<in>set (sent b). tool_choice q = Auto)"
    and "explorationRound e cfg j b = (Completed, a')"
  then show "length (sent a') = Suc j \<and> (\<forall>q\<in>set (sent a'). tool_choice q = Auto)"
    using explorationRound_sent [of e cfg j b] by auto
qed

lemma usage_le_refl [simp]: "usage_le u u"
  by (simp add: usage_le_def)

lemma usage_le_trans: "usage_le u v \<Longrightarrow> usage_le v w \<Longrightarrow> usage_le u w"
  by (auto simp: usage_le_def)

lemma explorationRound_usage_le: "usage_le (usage a) (usage (snd (explorationRound e cfg rnd a)))"
  by (simp add: usage_le_def explorationRound_totalTokens explorationRound_promptTokens
      explorationRound_completionTokens)

lemma loopHead_usage_le:
  "loopHead e cfg a0 i = Some ai \<Longrightarrow> loopHead e cfg a0 j = Some aj \<Longrightarrow> i \<le> j \<Longrightarrow>
   usage_le (usage ai) (usage aj)"
proof (induction j arbitrary: aj)
  case 0
  then show ?case by simp
next
  case (Suc j)
  show ?case
  proof (cases "i = Suc j")
    case True
    with Suc.prems show ?thesis by simp
  next
    case False
    with Suc.prems have le: "i \<le> j" by simp
    from Suc.prems(2) obtain b where b: "loopHead e cfg a0 j = Some b"
      and r: "explorationRound e cfg j b = (Completed, aj)"
      by (rule loopHead_Suc_cases)
    have "usage_le (usage ai) (usage b)" by (rule Suc.IH [OF Suc.prems(1) b le])
    moreover have "usage_le (usage b) (usage aj)"
      using explorationRound_usage_le [of b e cfg j] r by simp
    ultimately show ?thesis by (rule usage_le_trans)
  qed
qed

lemma explorationLoop_usage_le:
  "usage_le (usage a) (usage (snd (explorationLoop e cfg k a)))"
proof (induction "maxRounds cfg - k" arbitrary: k a)
  case 0
  then show ?case by (simp add: explorationLoop_exit forceCompletion_usage)
next
  case (Suc n)
  then have lt: "k < maxRounds cfg" by simp
  obtain c a' where r: "explorationRound e cfg k a = (c, a')"
    by (cases "explorationRound e cfg k a")
  have le: "usage_le (usage a) (usage a')"
    using explorationRound_usage_le [of a e cfg k] r by simp
  show ?case
  proof (cases c)
    case (Thrown err)
    then show ?thesis using explorationLoop_thrown [OF lt] r le by simp
  next
    case Completed
    have "n = maxRounds cfg - (k + 1)" using Suc.hyps(2) by simp
    then have "usage_le (usage a') (usage (snd (explorationLoop e cfg (k + 1) a')))"
      by (rule Suc.hyps(1))
    with le have "usage_le (usage a) (usage (snd (explorationLoop e cfg (k + 1) a')))"
      by (rule usage_le_trans)
    then show ?thesis
      using explorationLoop_completed [OF lt r [unfolded Completed]] le
      by (simp add: forceCompletion_usage)
  qed
qed

lemma explorationLoop_costCurrent:
  "costCurrent (usage a) \<Longrightarrow> costCurrent (usage (snd (explorationLoop e cfg k a)))"
proof (induction "maxRounds cfg - k" arbitrary: k a)
  case 0
  then show ?case by (simp add: explorationLoop_exit forceCompletion_usage)
next
  case (Suc n)
  then have lt: "k < maxRounds cfg" by simp
  obtain c a' where r: "explorationRound e cfg k a = (c, a')"
    by (cases "explorationRound e cfg k a")
  have cc: "costCurrent (usage a')"
    using explorationRound_costCurrent [OF Suc.prems, of e cfg k] r by simp
  show ?case
  proof (cases c)
    case (Thrown err)
    then show ?thesis using explorationLoop_thrown [OF lt] r cc by simp
  next
    case Completed
    have "n = maxRounds cfg - (k + 1)" using Suc.hyps(2) by simp
    then have "costCurrent (usage (snd (explorationLoop e cfg (k + 1) a')))"
      using cc by (rule Suc.hyps(1))
    then show ?thesis
      using explorationLoop_completed [OF lt r [unfolded Completed]] cc
      by (simp add: forceCompletion_usage)
  qed
qed

text \<open>The usage the loop ends with, seen from the end of one of its rounds.\<close>

lemma explorationLoop_after_round:
  assumes "k < maxRounds cfg" and "explorationRound e cfg k a = (c, a')"
  shows "usage_le (usage a') (usage (snd (explorationLoop e cfg k a)))"
    and "costCurrent (usage a') \<Longrightarrow> costCurrent (usage (snd (explorationLoop e cfg k a)))"
proof -
  have "usage_le (usage a') (usage (snd (explorationLoop e cfg k a))) \<and>
      (costCurrent (usage a') \<longrightarrow> costCurrent (usage (snd (explorationLoop e cfg k a))))"
  proof (cases c)
    case (Thrown err)
    then show ?thesis using explorationLoop_thrown [OF assms(1)] assms(2) by simp
  next
    case Completed
    then show ?thesis
      using explorationLoop_completed [OF assms(1) assms(2) [unfolded Completed]]
        explorationLoop_usage_le [of a' e cfg "k + 1"]
        explorationLoop_costCurrent [of a' e cfg "k + 1"]
      by (simp add: forceCompletion_usage)
  qed
  then show "usage_le (usage a') (usage (snd (explorationLoop e cfg k a)))"
    and "costCurrent (usage a') \<Longrightarrow> costCurrent (usage (snd (explorationLoop e cfg k a)))"
    by simp_all
qed

text \<open>The round counter counts the requests with open tool choice.\<close>

lemma explorationLoop_rounds_count:
  assumes "rounds (usage a) = k"
    and "length (filter (\<lambda>q. tool_choice q = Auto) (sent a)) = k"
  shows "rounds (usage (snd (explorationLoop e cfg k a))) =
         length (filter (\<lambda>q. tool_choice q = Auto) (sent (snd (explorationLoop e cfg k a))))"
  using assms
proof (induction "maxRounds cfg - k" arbitrary: k a)
  case 0
  then show ?case
    by (simp add: explorationLoop_exit forceCompletion_usage forceCompletion_sent)
next
  case (Suc n)
  then have lt: "k < maxRounds cfg" by simp
  obtain c a' where r: "explorationRound e cfg k a = (c, a')"
    by (cases "explorationRound e cfg k a")
  have ru: "rounds (usage a') = k + 1"
    using explorationRound_rounds [of e cfg k a] r by simp
  have cnt: "length (filter (\<lambda>q. tool_choice q = Auto) (sent a')) = k + 1"
    using explorationRound_sent [of e cfg k a] r Suc.prems(2) by simp
  show ?case
  proof (cases c)
    case (Thrown err)
    then show ?thesis using explorationLoop_thrown [OF lt] r ru cnt by simp
  next
    case Completed
    have "n = maxRounds cfg - (k + 1)" using Suc.hyps(2) by simp
    then have "rounds (usage (snd (explorationLoop e cfg (k + 1) a'))) =
        length (filter (\<lambda>q. tool_choice q = Auto)
          (sent (snd (explorationLoop e cfg (k + 1) a'))))"
      using ru cnt by (rule Suc.hyps(1))
    then show ?thesis
      using explorationLoop_completed [OF lt r [unfolded Completed]] ru cnt
      by (simp add: forceCompletion_usage forceCompletion_sent)
  qed
qed

section \<open>The run\<close>

lemma get_property_Inl: "get_property v p = Inl err \<Longrightarrow> v = JNull"
  by (cases v) simp_all

lemma analyze_state:
  "snd (analyze e cfg sp up new_AgenticAnalyzer) = snd (explorationLoop e cfg 0 (started sp up))"
  by (simp add: analyze_def started_def Let_def
      split: prod.splits completion.splits sum.splits)

lemma analyze_usage:
  "result_usage (fst (analyze e cfg sp up a)) = usage (snd (analyze e cfg sp up a))"
  by (simp add: analyze_def Let_def error_result_def
      split: prod.splits completion.splits sum.splits)

lemma analyze_status:
  assumes "explorationLoop e cfg 0 (started sp up) = (c, a')"
  shows "status (fst (analyze e cfg sp up new_AgenticAnalyzer)) =
     (if c = Completed \<and> analysisResults (tools a') \<noteq> JNull then Complete else Error)"
proof (cases c)
  case (Thrown err)
  then show ?thesis using assms
    by (simp add: analyze_def started_def Let_def error_result_def)
next
  case Completed
  show ?thesis
  proof (cases "analysisResults (tools a') = JNull")
    case True
    then show ?thesis using assms Completed
      by (simp add: analyze_def started_def Let_def error_result_def)
  next
    case False
    then show ?thesis using assms Completed
      by (auto simp: analyze_def started_def Let_def error_result_def
          split: sum.splits dest: get_property_Inl)
  qed
qed

lemma explorationLoop_rounds_le:
  "rounds (usage a) \<le> maxRounds cfg \<Longrightarrow>
   rounds (usage (snd (explorationLoop e cfg rnd a))) \<le> maxRounds cfg"
proof (induction "maxRounds cfg - rnd" arbitrary: rnd a)
  case 0
  then show ?case by (simp add: explorationLoop_exit forceCompletion_usage)
next
  case (Suc n)
  then have lt: "rnd < maxRounds cfg" by simp
  obtain c a' where r: "explorationRound e cfg rnd a = (c, a')"
    by (cases "explorationRound e cfg rnd a")
  have le: "rounds (usage a') \<le> maxRounds cfg"
    using explorationRound_rounds [of e cfg rnd a] r lt by simp
  show ?case
  proof (cases c)
    case (Thrown err)
    then show ?thesis using explorationLoop_thrown [OF lt] r le by simp
  next
    case Completed
    have "n = maxRounds cfg - (rnd + 1)" using Suc.hyps(2) by simp
    then have "rounds (usage (snd (explorationLoop e cfg (rnd + 1) a'))) \<le> maxRounds cfg"
      using le by (rule Suc.hyps(1))
    then show ?thesis
      using explorationLoop_completed [OF lt r [unfolded Completed]] le
      by (simp add: forceCompletion_usage)
  qed
qed

text \<open>
  C4. For every configuration and every behaviour of the provider, the \<open>rounds\<close> field of
  the usage metrics that \<open>analyze\<close> returns is at most \<open>maxRounds + 1\<close>. (The loop sets the
  field to \<open>round + 1\<close> with \<open>round < maxRounds\<close>, and the forcing round does not count
  itself, so the field never exceeds \<open>maxRounds\<close>.)
\<close>

theorem rounds_bounded:
  "rounds (result_usage (fst (analyze e cfg systemPrompt userPrompt new_AgenticAnalyzer)))
     \<le> maxRounds cfg + 1"
proof -
  have "rounds (usage (started systemPrompt userPrompt)) \<le> maxRounds cfg"
    by (simp add: started_def new_AgenticAnalyzer_def)
  then have "rounds (usage (snd (explorationLoop e cfg 0 (started systemPrompt userPrompt))))
      \<le> maxRounds cfg"
    by (rule explorationLoop_rounds_le)
  then show ?thesis by (simp add: analyze_usage analyze_state)
qed

lemmas demo_defs = demo_env_def scripted_def demo_parse_def demo_repo_def text_reply_def
  calls_reply_def silent_reply_def call_def demo_cfg_def started_def new_AgenticAnalyzer_def
  new_ToolRegistry_def

lemmas run_defs = analyze_def explorationLoop.simps explorationRound_def forceCompletion_def
  chatRequest_def dispatchToolCall_def execute_def overBudget_def trackUsage_def
  calculateCost_def error_result_def getDefinitions_def Let_def

theorem rounds_bounded_witness:
  "rounds (result_usage (fst (analyze (demo_env [text_reply 10, text_reply 20] silent_reply)
      (demo_cfg 2) ''s'' ''u'' new_AgenticAnalyzer))) = 2 \<and>
   rounds (result_usage (fst (analyze (demo_env [text_reply 10, text_reply 20] silent_reply)
      (demo_cfg 2) ''s'' ''u'' new_AgenticAnalyzer))) \<le> maxRounds (demo_cfg 2) + 1"
proof -
  have "rounds (result_usage (fst (analyze (demo_env [text_reply 10, text_reply 20] silent_reply)
      (demo_cfg 2) ''s'' ''u'' new_AgenticAnalyzer))) \<le> maxRounds (demo_cfg 2) + 1"
    by (rule rounds_bounded)
  moreover have "rounds (result_usage (fst (analyze
      (demo_env [text_reply 10, text_reply 20] silent_reply)
      (demo_cfg 2) ''s'' ''u'' new_AgenticAnalyzer))) = 2"
    by (simp add: demo_defs run_defs)
  ultimately show ?thesis by simp
qed

text \<open>
  C10. The forcing round leaves every field of the usage metrics as it found it, whatever
  the provider answers (tokens reported, tool calls, an error): neither the token counts
  nor the estimated cost nor the round counter change in \<open>forceCompletion\<close>.
\<close>

theorem forcing_round_leaves_usage:
  "usage (snd (forceCompletion e cfg a)) = usage a \<and>
   totalTokens (usage (snd (forceCompletion e cfg a))) = totalTokens (usage a) \<and>
   promptTokens (usage (snd (forceCompletion e cfg a))) = promptTokens (usage a) \<and>
   completionTokens (usage (snd (forceCompletion e cfg a))) = completionTokens (usage a) \<and>
   estimatedCost (usage (snd (forceCompletion e cfg a))) = estimatedCost (usage a) \<and>
   rounds (usage (snd (forceCompletion e cfg a))) = rounds (usage a)"
  by (simp add: forceCompletion_usage)

theorem forcing_round_leaves_usage_witness:
  "result_usage (fst (analyze (demo_env [text_reply 10]
       (calls_reply 500 [call ''f1'' ''finish_analysis'' ''{}'']))
       (demo_cfg 1) ''s'' ''u'' new_AgenticAnalyzer)) =
     \<lparr>totalTokens = 10, promptTokens = 10, completionTokens = 0,
      estimatedCost = 1 / 10000, rounds = 1\<rparr> \<and>
   usage (snd (forceCompletion
       (demo_env [text_reply 10] (calls_reply 500 [call ''f1'' ''finish_analysis'' ''{}'']))
       (demo_cfg 1) (started ''s'' ''u''))) = usage (started ''s'' ''u'')"
proof -
  have "usage (snd (forceCompletion
       (demo_env [text_reply 10] (calls_reply 500 [call ''f1'' ''finish_analysis'' ''{}'']))
       (demo_cfg 1) (started ''s'' ''u''))) = usage (started ''s'' ''u'')"
    using forcing_round_leaves_usage by blast
  moreover have "result_usage (fst (analyze (demo_env [text_reply 10]
       (calls_reply 500 [call ''f1'' ''finish_analysis'' ''{}'']))
       (demo_cfg 1) ''s'' ''u'' new_AgenticAnalyzer)) =
     \<lparr>totalTokens = 10, promptTokens = 10, completionTokens = 0,
      estimatedCost = 1 / 10000, rounds = 1\<rparr>"
    by (simp add: demo_defs run_defs)
  ultimately show ?thesis by simp
qed

lemma roundEnd_cases:
  assumes "roundEnd e cfg a0 k = Some (c, a')"
  obtains r b where "k = Suc r" and "loopHead e cfg a0 r = Some b" and "r < maxRounds cfg"
    and "explorationRound e cfg r b = (c, a')"
  using assms
  by (auto simp: roundEnd_def split: nat.splits option.splits if_splits)

text \<open>
  C9, as amended. In a run of \<open>analyze\<close> on a fresh analyzer, for exploration rounds
  \<open>i \<le> j\<close> that the run executes (counted from 1), the total, prompt and completion token
  counts and the estimated cost at the end of round \<open>j\<close> are at least those at the end of
  round \<open>i\<close>, and \<open>rounds\<close> is the index of the exploration round. The usage metrics that
  the run returns (after the forcing round, if there is one) are in turn at least those of
  round \<open>j\<close>, and their \<open>rounds\<close> field is the number of requests sent with open tool
  choice: the forcing round is not counted, so during and after it \<open>rounds\<close> is the index
  of the last exploration round. Token counts reported by the provider are natural
  numbers; the cost is computed in exact arithmetic.
\<close>

theorem usage_monotone_across_rounds:
  assumes "roundEnd e cfg (started systemPrompt userPrompt) i = Some (ci, ai)"
    and "roundEnd e cfg (started systemPrompt userPrompt) j = Some (cj, aj)"
    and "i \<le> j"
  shows "totalTokens (usage ai) \<le> totalTokens (usage aj) \<and>
         promptTokens (usage ai) \<le> promptTokens (usage aj) \<and>
         completionTokens (usage ai) \<le> completionTokens (usage aj) \<and>
         estimatedCost (usage ai) \<le> estimatedCost (usage aj) \<and>
         rounds (usage ai) = i \<and> rounds (usage aj) = j \<and>
         totalTokens (usage aj) \<le> totalTokens (result_usage
           (fst (analyze e cfg systemPrompt userPrompt new_AgenticAnalyzer))) \<and>
         promptTokens (usage aj) \<le> promptTokens (result_usage
           (fst (analyze e cfg systemPrompt userPrompt new_AgenticAnalyzer))) \<and>
         completionTokens (usage aj) \<le> completionTokens (result_usage
           (fst (analyze e cfg systemPrompt userPrompt new_AgenticAnalyzer))) \<and>
         estimatedCost (usage aj) \<le> estimatedCost (result_usage
           (fst (analyze e cfg systemPrompt userPrompt new_AgenticAnalyzer))) \<and>
         rounds (result_usage (fst (analyze e cfg systemPrompt userPrompt new_AgenticAnalyzer)))
           = length (filter (\<lambda>q. tool_choice q = Auto)
               (sent (snd (analyze e cfg systemPrompt userPrompt new_AgenticAnalyzer))))"
proof -
  let ?a0 = "started systemPrompt userPrompt"
  let ?u = "result_usage (fst (analyze e cfg systemPrompt userPrompt new_AgenticAnalyzer))"
  have c0: "costCurrent (usage ?a0)"
    by (simp add: started_def new_AgenticAnalyzer_def costCurrent_def calculateCost_def)
  from assms(1) obtain r b where i: "i = Suc r" and b: "loopHead e cfg ?a0 r = Some b"
    and ri: "explorationRound e cfg r b = (ci, ai)"
    by (rule roundEnd_cases)
  from assms(2) obtain r' b' where j: "j = Suc r'" and b': "loopHead e cfg ?a0 r' = Some b'"
    and lt': "r' < maxRounds cfg" and rj: "explorationRound e cfg r' b' = (cj, aj)"
    by (rule roundEnd_cases)
  have ai: "ai = snd (explorationRound e cfg r b)" and aj: "aj = snd (explorationRound e cfg r' b')"
    using ri rj by simp_all
  have rounds: "rounds (usage ai) = i \<and> rounds (usage aj) = j"
    using explorationRound_rounds [of e cfg r b] explorationRound_rounds [of e cfg r' b'] i j ai aj
    by simp
  have cost_i: "costCurrent (usage ai)"
    unfolding ai by (rule explorationRound_costCurrent [OF loopHead_costCurrent [OF b c0]])
  have cost_j: "costCurrent (usage aj)"
    unfolding aj by (rule explorationRound_costCurrent [OF loopHead_costCurrent [OF b' c0]])
  have le: "usage_le (usage ai) (usage aj)"
  proof (cases "r = r'")
    case True
    with b b' ri rj show ?thesis by simp
  next
    case False
    with assms(3) i j have "Suc r \<le> r'" by simp
    from loopHead_Some_down [OF b' this] obtain x where x: "loopHead e cfg ?a0 (Suc r) = Some x" ..
    then obtain b2 where "loopHead e cfg ?a0 r = Some b2"
      and "explorationRound e cfg r b2 = (Completed, x)"
      by (rule loopHead_Suc_cases)
    with b have "explorationRound e cfg r b = (Completed, x)" by simp
    with ri have "x = ai" by simp
    with x have "loopHead e cfg ?a0 (Suc r) = Some ai" by simp
    then have "usage_le (usage ai) (usage b')"
      using b' \<open>Suc r \<le> r'\<close> by (rule loopHead_usage_le)
    moreover have "usage_le (usage b') (usage aj)"
      unfolding aj by (rule explorationRound_usage_le)
    ultimately show ?thesis by (rule usage_le_trans)
  qed
  then have cost: "estimatedCost (usage ai) \<le> estimatedCost (usage aj)"
    using cost_i cost_j by (auto simp: usage_le_def intro: cost_mono)
  have u: "?u = usage (snd (explorationLoop e cfg r' b'))"
    by (simp add: analyze_usage analyze_state loopHead_loop [OF b'])
  have le_u: "usage_le (usage aj) ?u"
    unfolding u by (rule explorationLoop_after_round(1) [OF lt' rj])
  have "costCurrent ?u"
    unfolding u by (rule explorationLoop_after_round(2) [OF lt' rj cost_j])
  with le_u cost_j have cost_u: "estimatedCost (usage aj) \<le> estimatedCost ?u"
    by (auto simp: usage_le_def intro: cost_mono)
  have count: "rounds ?u = length (filter (\<lambda>q. tool_choice q = Auto)
      (sent (snd (analyze e cfg systemPrompt userPrompt new_AgenticAnalyzer))))"
  proof -
    have "rounds (usage (snd (explorationLoop e cfg 0 ?a0))) =
        length (filter (\<lambda>q. tool_choice q = Auto) (sent (snd (explorationLoop e cfg 0 ?a0))))"
      by (rule explorationLoop_rounds_count)
        (simp_all add: started_def new_AgenticAnalyzer_def)
    then show ?thesis by (simp add: analyze_usage analyze_state)
  qed
  from le rounds cost le_u cost_u count show ?thesis by (simp add: usage_le_def)
qed

theorem usage_monotone_across_rounds_witness:
  "roundEnd (demo_env [text_reply 10, text_reply 20] silent_reply) (demo_cfg 2)
     (started ''s'' ''u'') (Suc 0) \<noteq> None \<and>
   roundEnd (demo_env [text_reply 10, text_reply 20] silent_reply) (demo_cfg 2)
     (started ''s'' ''u'') (Suc (Suc 0)) \<noteq> None \<and>
   totalTokens (usage (snd (the (roundEnd (demo_env [text_reply 10, text_reply 20] silent_reply)
     (demo_cfg 2) (started ''s'' ''u'') (Suc 0))))) = 10 \<and>
   totalTokens (usage (snd (the (roundEnd (demo_env [text_reply 10, text_reply 20] silent_reply)
     (demo_cfg 2) (started ''s'' ''u'') (Suc (Suc 0)))))) = 30 \<and>
   estimatedCost (usage (snd (the (roundEnd (demo_env [text_reply 10, text_reply 20] silent_reply)
     (demo_cfg 2) (started ''s'' ''u'') (Suc 0)))))
     \<le> estimatedCost (usage (snd (the (roundEnd
       (demo_env [text_reply 10, text_reply 20] silent_reply)
       (demo_cfg 2) (started ''s'' ''u'') (Suc (Suc 0)))))) \<and>
   rounds (usage (snd (the (roundEnd (demo_env [text_reply 10, text_reply 20] silent_reply)
     (demo_cfg 2) (started ''s'' ''u'') (Suc (Suc 0)))))) = Suc (Suc 0) \<and>
   rounds (result_usage (fst (analyze (demo_env [text_reply 10, text_reply 20] silent_reply)
     (demo_cfg 2) ''s'' ''u'' new_AgenticAnalyzer))) =
     length (filter (\<lambda>q. tool_choice q = Auto)
       (sent (snd (analyze (demo_env [text_reply 10, text_reply 20] silent_reply)
         (demo_cfg 2) ''s'' ''u'' new_AgenticAnalyzer))))"
proof -
  let ?e = "demo_env [text_reply 10, text_reply 20] silent_reply"
  obtain c1 a1 where r1: "roundEnd ?e (demo_cfg 2) (started ''s'' ''u'') (Suc 0) = Some (c1, a1)"
    by (simp add: roundEnd_def demo_defs run_defs)
  obtain c2 a2 where
    r2: "roundEnd ?e (demo_cfg 2) (started ''s'' ''u'') (Suc (Suc 0)) = Some (c2, a2)"
    by (simp add: roundEnd_def demo_defs run_defs)
  have t1: "totalTokens (usage (snd (the (roundEnd ?e (demo_cfg 2) (started ''s'' ''u'')
      (Suc 0))))) = 10"
    by (simp add: roundEnd_def demo_defs run_defs)
  have t2: "totalTokens (usage (snd (the (roundEnd ?e (demo_cfg 2) (started ''s'' ''u'')
      (Suc (Suc 0)))))) = 30"
    by (simp add: roundEnd_def demo_defs run_defs)
  have "Suc 0 \<le> Suc (Suc 0)" by simp
  from usage_monotone_across_rounds [OF r1 r2 this] r1 r2 t1 t2 show ?thesis by simp
qed

text \<open>
  The claim as stated fails in the forcing round, which is a round of the run (one more
  request and response): below, two exploration rounds are followed by the forcing round,
  the third exchange, and \<open>rounds\<close> is 2.
\<close>

theorem rounds_is_round_index_counterexample:
  "map tool_choice (sent (snd (analyze (demo_env [text_reply 10, text_reply 20] silent_reply)
      (demo_cfg 2) ''s'' ''u'' new_AgenticAnalyzer))) =
     [Auto, Auto, Function ''finish_analysis''] \<and>
   length (sent (snd (analyze (demo_env [text_reply 10, text_reply 20] silent_reply)
      (demo_cfg 2) ''s'' ''u'' new_AgenticAnalyzer))) = 3 \<and>
   rounds (result_usage (fst (analyze (demo_env [text_reply 10, text_reply 20] silent_reply)
      (demo_cfg 2) ''s'' ''u'' new_AgenticAnalyzer))) = 2"
  by (simp add: demo_defs run_defs)

section \<open>The forcing round without a tool call\<close>

text \<open>
  C1. The claim: when the response of the forcing round has no tool call, the result has
  status \<open>Incomplete\<close> and an empty payload. The code: no run of \<open>analyze\<close> returns the
  status \<open>Incomplete\<close>; and on the run below (one exploration round without a tool call,
  then a forcing round without a tool call) \<^verbatim>\<open>getResults()\<close> is still \<^verbatim>\<open>null\<close>, the read of
  \<^verbatim>\<open>results.opportunities\<close> throws, and the catch block of \<open>analyze\<close> returns status \<open>Error\<close>
  with the TypeError as error detail and the summary \<^verbatim>\<open>Analysis failed\<close>.
\<close>

theorem forcing_without_tool_call_is_error:
  "status (fst (analyze e cfg systemPrompt userPrompt a)) \<noteq> Incomplete \<and>
   status (fst (analyze (demo_env [text_reply 10] silent_reply) (demo_cfg 1) ''s'' ''u''
      new_AgenticAnalyzer)) = Error \<and>
   error (fst (analyze (demo_env [text_reply 10] silent_reply) (demo_cfg 1) ''s'' ''u''
      new_AgenticAnalyzer)) = Some (type_error_null ''opportunities'') \<and>
   results (fst (analyze (demo_env [text_reply 10] silent_reply) (demo_cfg 1) ''s'' ''u''
      new_AgenticAnalyzer)) =
     \<lparr>opportunities = Some (JArray []), patterns = Some (JArray []),
      summary = Some (JString ''Analysis failed'')\<rparr> \<and>
   map tool_choice (sent (snd (analyze (demo_env [text_reply 10] silent_reply) (demo_cfg 1)
      ''s'' ''u'' new_AgenticAnalyzer))) = [Auto, Function ''finish_analysis'']"
proof -
  have "status (fst (analyze e cfg systemPrompt userPrompt a)) \<noteq> Incomplete"
    by (simp add: analyze_def error_result_def Let_def
        split: prod.splits completion.splits sum.splits)
  then show ?thesis by (simp add: demo_defs run_defs)
qed

section \<open>Dispatch of one tool call\<close>




section \<open>A round in which \<open>finish_analysis\<close> is executed\<close>

lemma finishPayloads_member:
  "toolCall \<in> set calls \<Longrightarrow> function_name toolCall = ''finish_analysis'' \<Longrightarrow>
   JSON_parse e (function_arguments toolCall) = Inr args \<Longrightarrow> args \<in> set (finishPayloads e calls)"
  by (force simp: finishPayloads_def)

lemma finishPayloads_nonempty:
  "toolCall \<in> set calls \<Longrightarrow> function_name toolCall = ''finish_analysis'' \<Longrightarrow>
   JSON_parse e (function_arguments toolCall) = Inr args \<Longrightarrow> finishPayloads e calls \<noteq> []"
  using finishPayloads_member [of toolCall calls e args] by auto

lemma toolResultMessage_finish:
  "function_name toolCall = ''finish_analysis'' \<Longrightarrow>
   JSON_parse e (function_arguments toolCall) = Inr args \<Longrightarrow>
   toolResultMessage e toolCall = ToolMessage (call_id toolCall) finish_result"
  by (simp add: toolResultMessage_def callOutcome_def execute_finish)

lemma finishing_round:
  assumes head: "loopHead e cfg (started sp up) r = Some a"
    and lt: "r < maxRounds cfg"
    and resp: "create e (chatRequest e cfg a Auto) = Inr resp"
    and msg: "choices resp = msg # others"
    and calls: "tool_calls msg = Some calls"
    and fin: "finishPayloads e calls \<noteq> []"
  shows "explorationLoop e cfg 0 (started sp up) = (Completed, snd (explorationRound e cfg r a))"
    and "snd (analyze e cfg sp up new_AgenticAnalyzer) = snd (explorationRound e cfg r a)"
    and "tools (snd (explorationRound e cfg r a)) =
           \<lparr>finishCalled = True, analysisResults = last (finishPayloads e calls)\<rparr>"
    and "history (snd (explorationRound e cfg r a)) =
           history a @ AssistantMessage msg # map (toolResultMessage e) calls"
proof -
  let ?a' = "snd (explorationRound e cfg r a)"
  have c: "fst (explorationRound e cfg r a) = Completed"
    by (rule explorationRound_batch(1) [OF resp msg calls])
  then have r: "explorationRound e cfg r a = (Completed, ?a')"
    by (simp add: prod_eq_iff)
  have t: "tools ?a' = (tools a)\<lparr>finishCalled := True,
      analysisResults := last (finishPayloads e calls)\<rparr>"
    using explorationRound_batch(3) [OF resp msg calls, of r] fin by simp
  then show "tools ?a' = \<lparr>finishCalled = True, analysisResults = last (finishPayloads e calls)\<rparr>"
    by simp
  from t have f: "finishCalled (tools ?a')" by simp
  have "explorationLoop e cfg 0 (started sp up) = explorationLoop e cfg r a"
    by (rule loopHead_loop [OF head])
  also have "\<dots> = (Completed, ?a')"
    using explorationLoop_completed [OF lt r] f by simp
  finally show l: "explorationLoop e cfg 0 (started sp up) = (Completed, ?a')" .
  then show "snd (analyze e cfg sp up new_AgenticAnalyzer) = ?a'"
    by (simp add: analyze_state)
  show "history ?a' = history a @ AssistantMessage msg # map (toolResultMessage e) calls"
    by (rule explorationRound_batch(2) [OF resp msg calls])
qed

lemma started_sent [simp]: "sent (started sp up) = []"
  by (simp add: started_def new_AgenticAnalyzer_def)

lemma started_rounds [simp]: "rounds (usage (started sp up)) = 0"
  by (simp add: started_def new_AgenticAnalyzer_def)

text \<open>
  What the code does after a finish. In a run of \<open>analyze\<close> on a fresh analyzer, let the
  loop reach exploration round \<open>r + 1\<close> (loop variable \<open>r\<close>) and let a \<open>finish_analysis\<close> call
  of that round's response be executed (its arguments parse). Then the request of that
  round is the last request the run sends, \<open>r + 1\<close> requests in all and every one with open
  tool choice (so neither a further round nor the forcing round follows), \<open>rounds\<close> is
  \<open>r + 1\<close>, and the status depends only on whether the arguments kept from the last
  executed \<open>finish_analysis\<close> call are JSON \<^verbatim>\<open>null\<close>.
\<close>

lemma finish_ends_run:
  assumes "loopHead e cfg (started systemPrompt userPrompt) r = Some a"
    and "r < maxRounds cfg"
    and "create e (chatRequest e cfg a Auto) = Inr resp"
    and "choices resp = msg # others"
    and "tool_calls msg = Some calls"
    and "toolCall \<in> set calls"
    and "function_name toolCall = ''finish_analysis''"
    and "JSON_parse e (function_arguments toolCall) = Inr args"
  shows "sent (snd (analyze e cfg systemPrompt userPrompt new_AgenticAnalyzer)) =
           sent a @ [chatRequest e cfg a Auto] \<and>
         length (sent (snd (analyze e cfg systemPrompt userPrompt new_AgenticAnalyzer))) = r + 1 \<and>
         (\<forall>q\<in>set (sent (snd (analyze e cfg systemPrompt userPrompt new_AgenticAnalyzer))).
            tool_choice q = Auto) \<and>
         rounds (result_usage (fst (analyze e cfg systemPrompt userPrompt new_AgenticAnalyzer)))
           = r + 1 \<and>
         status (fst (analyze e cfg systemPrompt userPrompt new_AgenticAnalyzer)) =
           (if last (finishPayloads e calls) = JNull then Error else Complete)"
proof -
  let ?a' = "snd (explorationRound e cfg r a)"
  let ?run = "analyze e cfg systemPrompt userPrompt new_AgenticAnalyzer"
  have fin: "finishPayloads e calls \<noteq> []"
    by (rule finishPayloads_nonempty [OF assms(6-8)])
  note fr = finishing_round [OF assms(1-5) fin]
  have s: "sent (snd ?run) = sent a @ [chatRequest e cfg a Auto]"
    by (simp add: fr(2) explorationRound_sent)
  have hs: "length (sent a) = r \<and> (\<forall>q\<in>set (sent a). tool_choice q = Auto)"
    by (rule loopHead_sent [OF assms(1)]) simp
  have "rounds (usage (snd ?run)) = r + 1"
    by (simp add: fr(2) explorationRound_rounds)
  then have rs: "rounds (result_usage (fst ?run)) = r + 1"
    by (simp add: analyze_usage)
  have st: "status (fst ?run) =
      (if last (finishPayloads e calls) = JNull then Error else Complete)"
    using analyze_status [OF fr(1)] fr(3) by simp
  from s hs rs st show ?thesis by simp
qed

lemma finish_ends_run_at_round_two:
  "status (fst (analyze
      (demo_env [text_reply 10, calls_reply 20 [call ''f1'' ''finish_analysis'' ''{}''],
                 text_reply 5] silent_reply)
      (demo_cfg 3) ''s'' ''u'' new_AgenticAnalyzer)) = Complete \<and>
   length (sent (snd (analyze
      (demo_env [text_reply 10, calls_reply 20 [call ''f1'' ''finish_analysis'' ''{}''],
                 text_reply 5] silent_reply)
      (demo_cfg 3) ''s'' ''u'' new_AgenticAnalyzer))) = 2 \<and>
   rounds (result_usage (fst (analyze
      (demo_env [text_reply 10, calls_reply 20 [call ''f1'' ''finish_analysis'' ''{}''],
                 text_reply 5] silent_reply)
      (demo_cfg 3) ''s'' ''u'' new_AgenticAnalyzer))) = 2"
proof -
  let ?calls = "[call ''f1'' ''finish_analysis'' ''{}'']"
  let ?e = "demo_env [text_reply 10, calls_reply 20 ?calls, text_reply 5] silent_reply"
  let ?a = "the (loopHead ?e (demo_cfg 3) (started ''s'' ''u'') (Suc 0))"
  let ?msg = "\<lparr>content = None, tool_calls = Some ?calls\<rparr>"
  have h: "loopHead ?e (demo_cfg 3) (started ''s'' ''u'') (Suc 0) = Some ?a"
    by (simp add: demo_defs run_defs)
  have lt: "Suc 0 < maxRounds (demo_cfg 3)"
    by (simp add: demo_defs)
  have c: "create ?e (chatRequest ?e (demo_cfg 3) ?a Auto) = Inr (calls_reply 20 ?calls)"
    by (simp add: demo_defs run_defs)
  have m: "choices (calls_reply 20 ?calls) = ?msg # []"
    by (simp add: calls_reply_def)
  have t: "tool_calls ?msg = Some ?calls"
    by simp
  have i: "call ''f1'' ''finish_analysis'' ''{}'' \<in> set ?calls"
    by simp
  have n: "function_name (call ''f1'' ''finish_analysis'' ''{}'') = ''finish_analysis''"
    by (simp add: call_def)
  have p: "JSON_parse ?e (function_arguments (call ''f1'' ''finish_analysis'' ''{}'')) =
      Inr (JObject [])"
    by (simp add: demo_defs)
  have l: "last (finishPayloads ?e ?calls) = JObject []"
    by (simp add: finishPayloads_def demo_defs)
  note inst = finish_ends_run [OF h lt c m t i n p]
  from inst have "length (sent (snd (analyze ?e (demo_cfg 3) ''s'' ''u'' new_AgenticAnalyzer)))
      = Suc 0 + 1"
    by blast
  moreover from inst have "rounds (result_usage (fst (analyze ?e (demo_cfg 3) ''s'' ''u''
      new_AgenticAnalyzer))) = Suc 0 + 1"
    by blast
  moreover from inst have "status (fst (analyze ?e (demo_cfg 3) ''s'' ''u''
      new_AgenticAnalyzer)) = (if last (finishPayloads ?e ?calls) = JNull then Error else Complete)"
    by blast
  ultimately show ?thesis using l by simp
qed

text \<open>
  C3. The claim: when a \<open>finish_analysis\<close> call is executed in exploration round \<open>k\<close>, no
  request of a round \<open>k + 1\<close> is sent and the result has status \<open>Complete\<close>. The code, on
  the run below (round 1 answers with one \<open>finish_analysis\<close> call whose arguments text is
  \<^verbatim>\<open>null\<close>): the call is executed and acknowledged, the finish flag is set and the loop
  stops after round 1 with one request sent, as the claim says; but \<^verbatim>\<open>getResults()\<close> is
  \<^verbatim>\<open>null\<close>, the read of \<^verbatim>\<open>results.opportunities\<close> throws, and the catch block of \<open>analyze\<close>
  returns status \<open>Error\<close>. It is the unchecked read that C1 meets.
\<close>

theorem finish_with_null_arguments_is_error:
  "status (fst (analyze
      (demo_env [calls_reply 10 [call ''f1'' ''finish_analysis'' ''null'']] silent_reply)
      (demo_cfg 3) ''s'' ''u'' new_AgenticAnalyzer)) = Error \<and>
   error (fst (analyze
      (demo_env [calls_reply 10 [call ''f1'' ''finish_analysis'' ''null'']] silent_reply)
      (demo_cfg 3) ''s'' ''u'' new_AgenticAnalyzer)) = Some (type_error_null ''opportunities'') \<and>
   map tool_choice (sent (snd (analyze
      (demo_env [calls_reply 10 [call ''f1'' ''finish_analysis'' ''null'']] silent_reply)
      (demo_cfg 3) ''s'' ''u'' new_AgenticAnalyzer))) = [Auto] \<and>
   finishCalled (tools (snd (analyze
      (demo_env [calls_reply 10 [call ''f1'' ''finish_analysis'' ''null'']] silent_reply)
      (demo_cfg 3) ''s'' ''u'' new_AgenticAnalyzer))) \<and>
   history (snd (analyze
      (demo_env [calls_reply 10 [call ''f1'' ''finish_analysis'' ''null'']] silent_reply)
      (demo_cfg 3) ''s'' ''u'' new_AgenticAnalyzer)) =
     [SystemMessage ''s'', UserMessage ''u'',
      AssistantMessage \<lparr>content = None,
        tool_calls = Some [call ''f1'' ''finish_analysis'' ''null'']\<rparr>,
      ToolMessage ''f1'' finish_result]"
  by (simp add: demo_defs run_defs)

section \<open>Several \<open>finish_analysis\<close> calls in one batch\<close>

lemma analyze_results:
  "explorationLoop e cfg 0 (started sp up) = (Completed, a') \<Longrightarrow>
   analysisResults (tools a') = JObject kvs \<Longrightarrow>
   results (fst (analyze e cfg sp up new_AgenticAnalyzer)) =
     \<lparr>opportunities = map_of kvs ''opportunities'', patterns = map_of kvs ''patterns'',
      summary = map_of kvs ''summary''\<rparr>"
  by (simp add: analyze_def started_def Let_def)

text \<open>
  C6, as amended. In a run of \<open>analyze\<close> on a fresh analyzer, let the response of an
  exploration round carry a batch of tool calls of which at least one \<open>finish_analysis\<close>
  call is executed. Then the history ends with the assistant message followed by one tool
  message per call of the batch, in the order of the batch and each under the id of its
  call; the arguments the registry keeps are those of the last \<open>finish_analysis\<close> call
  executed; and when they are an object, its \<open>opportunities\<close>, \<open>patterns\<close> and \<open>summary\<close> are
  the payload of the result. (A batch answered in the forcing round gets no tool
  messages.)
\<close>

theorem exploration_batch_last_finish_wins:
  assumes "loopHead e cfg (started systemPrompt userPrompt) r = Some a"
    and "r < maxRounds cfg"
    and "create e (chatRequest e cfg a Auto) = Inr resp"
    and "choices resp = msg # others"
    and "tool_calls msg = Some calls"
    and "finishPayloads e calls \<noteq> []"
  shows "history (snd (analyze e cfg systemPrompt userPrompt new_AgenticAnalyzer)) =
           history a @ AssistantMessage msg # map (toolResultMessage e) calls \<and>
         (\<forall>i<length calls. \<exists>c.
            history (snd (analyze e cfg systemPrompt userPrompt new_AgenticAnalyzer))
              ! (length (history a) + 1 + i) = ToolMessage (call_id (calls ! i)) c) \<and>
         finishCalled (tools (snd (analyze e cfg systemPrompt userPrompt new_AgenticAnalyzer))) \<and>
         analysisResults (tools (snd (analyze e cfg systemPrompt userPrompt new_AgenticAnalyzer)))
           = last (finishPayloads e calls) \<and>
         (\<forall>kvs. last (finishPayloads e calls) = JObject kvs \<longrightarrow>
            results (fst (analyze e cfg systemPrompt userPrompt new_AgenticAnalyzer)) =
              \<lparr>opportunities = map_of kvs ''opportunities'',
               patterns = map_of kvs ''patterns'', summary = map_of kvs ''summary''\<rparr>)"
proof -
  let ?run = "analyze e cfg systemPrompt userPrompt new_AgenticAnalyzer"
  note fr = finishing_round [OF assms]
  have h: "history (snd ?run) = history a @ AssistantMessage msg # map (toolResultMessage e) calls"
    by (simp add: fr(2) fr(4))
  have ix: "\<forall>i<length calls. \<exists>c.
      history (snd ?run) ! (length (history a) + 1 + i) = ToolMessage (call_id (calls ! i)) c"
    by (simp add: h nth_append toolResultMessage_def)
  have t: "finishCalled (tools (snd ?run)) \<and>
      analysisResults (tools (snd ?run)) = last (finishPayloads e calls)"
    by (simp add: fr(2) fr(3))
  have p: "\<forall>kvs. last (finishPayloads e calls) = JObject kvs \<longrightarrow>
      results (fst ?run) =
        \<lparr>opportunities = map_of kvs ''opportunities'',
         patterns = map_of kvs ''patterns'', summary = map_of kvs ''summary''\<rparr>"
    using analyze_results [OF fr(1)] fr(3) by simp
  from h ix t p show ?thesis by blast
qed

theorem exploration_batch_last_finish_wins_witness:
  "history (snd (analyze
      (demo_env [calls_reply 10 [call ''f1'' ''finish_analysis'' ''[]'',
                                 call ''c2'' ''search_code'' ''{}'',
                                 call ''f3'' ''finish_analysis'' ''{}'']] silent_reply)
      (demo_cfg 3) ''s'' ''u'' new_AgenticAnalyzer)) =
     [SystemMessage ''s'', UserMessage ''u'',
      AssistantMessage \<lparr>content = None,
        tool_calls = Some [call ''f1'' ''finish_analysis'' ''[]'',
                           call ''c2'' ''search_code'' ''{}'',
                           call ''f3'' ''finish_analysis'' ''{}'']\<rparr>,
      ToolMessage ''f1'' finish_result,
      ToolMessage ''c2'' ''Error: file not found'',
      ToolMessage ''f3'' finish_result] \<and>
   analysisResults (tools (snd (analyze
      (demo_env [calls_reply 10 [call ''f1'' ''finish_analysis'' ''[]'',
                                 call ''c2'' ''search_code'' ''{}'',
                                 call ''f3'' ''finish_analysis'' ''{}'']] silent_reply)
      (demo_cfg 3) ''s'' ''u'' new_AgenticAnalyzer))) = JObject [] \<and>
   results (fst (analyze
      (demo_env [calls_reply 10 [call ''f1'' ''finish_analysis'' ''[]'',
                                 call ''c2'' ''search_code'' ''{}'',
                                 call ''f3'' ''finish_analysis'' ''{}'']] silent_reply)
      (demo_cfg 3) ''s'' ''u'' new_AgenticAnalyzer)) =
     \<lparr>opportunities = None, patterns = None, summary = None\<rparr>"
proof -
  let ?calls = "[call ''f1'' ''finish_analysis'' ''[]'', call ''c2'' ''search_code'' ''{}'',
                 call ''f3'' ''finish_analysis'' ''{}'']"
  let ?e = "demo_env [calls_reply 10 ?calls] silent_reply"
  let ?msg = "\<lparr>content = None, tool_calls = Some ?calls\<rparr>"
  have h: "loopHead ?e (demo_cfg 3) (started ''s'' ''u'') 0 = Some (started ''s'' ''u'')"
    by simp
  have lt: "0 < maxRounds (demo_cfg 3)"
    by (simp add: demo_defs)
  have c: "create ?e (chatRequest ?e (demo_cfg 3) (started ''s'' ''u'') Auto) =
      Inr (calls_reply 10 ?calls)"
    by (simp add: demo_defs run_defs)
  have m: "choices (calls_reply 10 ?calls) = ?msg # []"
    by (simp add: calls_reply_def)
  have t: "tool_calls ?msg = Some ?calls"
    by simp
  have f: "finishPayloads ?e ?calls = [JArray [], JObject []]"
    by (simp add: finishPayloads_def demo_defs)
  then have ne: "finishPayloads ?e ?calls \<noteq> []"
    by simp
  have ms: "map (toolResultMessage ?e) ?calls =
      [ToolMessage ''f1'' finish_result, ToolMessage ''c2'' ''Error: file not found'',
       ToolMessage ''f3'' finish_result]"
    by (simp add: toolResultMessage_def callOutcome_def execute_def demo_defs)
  note inst = exploration_batch_last_finish_wins [OF h lt c m t ne]
  from inst have "history (snd (analyze ?e (demo_cfg 3) ''s'' ''u'' new_AgenticAnalyzer)) =
      history (started ''s'' ''u'') @ AssistantMessage ?msg # map (toolResultMessage ?e) ?calls"
    by blast
  moreover from inst have "analysisResults (tools (snd (analyze ?e (demo_cfg 3) ''s'' ''u''
      new_AgenticAnalyzer))) = last (finishPayloads ?e ?calls)"
    by blast
  moreover from inst f have "results (fst (analyze ?e (demo_cfg 3) ''s'' ''u''
      new_AgenticAnalyzer)) =
        \<lparr>opportunities = map_of [] ''opportunities'',
         patterns = map_of [] ''patterns'', summary = map_of [] ''summary''\<rparr>"
    by simp
  ultimately show ?thesis using f ms
    by (simp add: started_def new_AgenticAnalyzer_def)
qed

text \<open>
  The claim as stated fails for the batch of the forcing round: both \<open>finish_analysis\<close>
  calls are executed and the second wins, but the history ends with the instruction
  message and holds no tool message.
\<close>

theorem batch_acknowledged_counterexample:
  "history (snd (analyze
      (demo_env [silent_reply]
         (calls_reply 0 [call ''f1'' ''finish_analysis'' ''{}'',
                         call ''f2'' ''finish_analysis'' ''[]'']))
      (demo_cfg 1) ''s'' ''u'' new_AgenticAnalyzer)) =
     [SystemMessage ''s'', UserMessage ''u'',
      AssistantMessage \<lparr>content = Some ''thinking'', tool_calls = None\<rparr>,
      UserMessage force_prompt] \<and>
   analysisResults (tools (snd (analyze
      (demo_env [silent_reply]
         (calls_reply 0 [call ''f1'' ''finish_analysis'' ''{}'',
                         call ''f2'' ''finish_analysis'' ''[]'']))
      (demo_cfg 1) ''s'' ''u'' new_AgenticAnalyzer))) = JArray []"
  by (simp add: demo_defs run_defs)

section \<open>Acknowledging \<open>finish_analysis\<close>\<close>

text \<open>
  C7, as amended. In a run of \<open>analyze\<close> on a fresh analyzer, a \<open>finish_analysis\<close> call that
  is executed in an exploration round is acknowledged: the history at the end of the run
  holds the tool message with the id of the call and the content
  \<^verbatim>\<open>{"status":"Analysis complete"}\<close>. The forcing round appends the instruction message to the
  history and nothing else, whatever calls it executes.
\<close>

theorem exploration_finish_acknowledged:
  assumes "loopHead e cfg (started systemPrompt userPrompt) r = Some a"
    and "r < maxRounds cfg"
    and "create e (chatRequest e cfg a Auto) = Inr resp"
    and "choices resp = msg # others"
    and "tool_calls msg = Some calls"
    and "toolCall \<in> set calls"
    and "function_name toolCall = ''finish_analysis''"
    and "JSON_parse e (function_arguments toolCall) = Inr args"
  shows "ToolMessage (call_id toolCall) finish_result
           \<in> set (history (snd (analyze e cfg systemPrompt userPrompt new_AgenticAnalyzer))) \<and>
         history (snd (forceCompletion e cfg b)) = history b @ [UserMessage force_prompt]"
proof -
  have fin: "finishPayloads e calls \<noteq> []"
    by (rule finishPayloads_nonempty [OF assms(6-8)])
  note fr = finishing_round [OF assms(1-5) fin]
  have "toolResultMessage e toolCall \<in> set (map (toolResultMessage e) calls)"
    using assms(6) by simp
  then have "ToolMessage (call_id toolCall) finish_result
      \<in> set (map (toolResultMessage e) calls)"
    by (simp only: toolResultMessage_finish [OF assms(7,8)])
  then have "ToolMessage (call_id toolCall) finish_result
      \<in> set (history (snd (analyze e cfg systemPrompt userPrompt new_AgenticAnalyzer)))"
    by (simp add: fr(2) fr(4))
  then show ?thesis by (simp add: forceCompletion_history)
qed

theorem exploration_finish_acknowledged_witness:
  "ToolMessage ''f9'' finish_result \<in> set (history (snd (analyze
      (demo_env [text_reply 10, calls_reply 20 [call ''c1'' ''list_files'' ''{}'',
                                                call ''f9'' ''finish_analysis'' ''{}'']]
         silent_reply)
      (demo_cfg 3) ''s'' ''u'' new_AgenticAnalyzer)))"
proof -
  let ?calls = "[call ''c1'' ''list_files'' ''{}'', call ''f9'' ''finish_analysis'' ''{}'']"
  let ?e = "demo_env [text_reply 10, calls_reply 20 ?calls] silent_reply"
  let ?a = "the (loopHead ?e (demo_cfg 3) (started ''s'' ''u'') (Suc 0))"
  let ?msg = "\<lparr>content = None, tool_calls = Some ?calls\<rparr>"
  have h: "loopHead ?e (demo_cfg 3) (started ''s'' ''u'') (Suc 0) = Some ?a"
    by (simp add: demo_defs run_defs)
  have lt: "Suc 0 < maxRounds (demo_cfg 3)"
    by (simp add: demo_defs)
  have c: "create ?e (chatRequest ?e (demo_cfg 3) ?a Auto) = Inr (calls_reply 20 ?calls)"
    by (simp add: demo_defs run_defs)
  have m: "choices (calls_reply 20 ?calls) = ?msg # []"
    by (simp add: calls_reply_def)
  have t: "tool_calls ?msg = Some ?calls"
    by simp
  have i: "call ''f9'' ''finish_analysis'' ''{}'' \<in> set ?calls"
    by simp
  have n: "function_name (call ''f9'' ''finish_analysis'' ''{}'') = ''finish_analysis''"
    by (simp add: call_def)
  have p: "JSON_parse ?e (function_arguments (call ''f9'' ''finish_analysis'' ''{}'')) =
      Inr (JObject [])"
    by (simp add: demo_defs)
  have "ToolMessage (call_id (call ''f9'' ''finish_analysis'' ''{}'')) finish_result
      \<in> set (history (snd (analyze ?e (demo_cfg 3) ''s'' ''u'' new_AgenticAnalyzer)))"
    using exploration_finish_acknowledged [OF h lt c m t i n p] by blast
  then show ?thesis by (simp add: call_def)
qed

text \<open>
  The claim as stated fails in the forcing round: the \<open>finish_analysis\<close> call is executed
  and the run ends with status \<open>Complete\<close>, and no tool message follows the instruction
  message.
\<close>

theorem forced_finish_acknowledged_counterexample:
  "finishCalled (tools (snd (analyze
      (demo_env [text_reply 10] (calls_reply 5 [call ''f1'' ''finish_analysis'' ''{}'']))
      (demo_cfg 1) ''s'' ''u'' new_AgenticAnalyzer))) \<and>
   status (fst (analyze
      (demo_env [text_reply 10] (calls_reply 5 [call ''f1'' ''finish_analysis'' ''{}'']))
      (demo_cfg 1) ''s'' ''u'' new_AgenticAnalyzer)) = Complete \<and>
   history (snd (analyze
      (demo_env [text_reply 10] (calls_reply 5 [call ''f1'' ''finish_analysis'' ''{}'']))
      (demo_cfg 1) ''s'' ''u'' new_AgenticAnalyzer)) =
     [SystemMessage ''s'', UserMessage ''u'',
      AssistantMessage \<lparr>content = Some ''thinking'', tool_calls = None\<rparr>,
      UserMessage force_prompt]"
  by (simp add: demo_defs run_defs)

section \<open>A failing tool call\<close>

text \<open>
  C8, as amended. In an exploration round whose response carries tool calls, a call whose
  arguments do not parse or whose execution throws ends neither the round nor the run:
  the round returns normally, every call of the batch gets its tool message in order, the
  message of a failed call has the content \<^verbatim>\<open>Error: <message>\<close>, and the loop goes on to its
  checks (finish flag, then budget threshold, then the next round).
\<close>

theorem exploration_tool_failure_isolated:
  assumes "rnd < maxRounds cfg"
    and "create e (chatRequest e cfg a Auto) = Inr resp"
    and "choices resp = msg # others"
    and "tool_calls msg = Some calls"
  shows "fst (explorationRound e cfg rnd a) = Completed \<and>
         history (snd (explorationRound e cfg rnd a)) =
           history a @ AssistantMessage msg # map (toolResultMessage e) calls \<and>
         (\<forall>toolCall\<in>set calls. \<forall>err. callOutcome e toolCall = Inl err \<longrightarrow>
            toolResultMessage e toolCall = ToolMessage (call_id toolCall) (''Error: '' @ err)) \<and>
         explorationLoop e cfg rnd a =
           (if finishCalled (tools (snd (explorationRound e cfg rnd a)))
            then (Completed, snd (explorationRound e cfg rnd a))
            else if overBudget cfg (snd (explorationRound e cfg rnd a))
            then forceCompletion e cfg (snd (explorationRound e cfg rnd a))
            else explorationLoop e cfg (rnd + 1) (snd (explorationRound e cfg rnd a)))"
proof -
  let ?a' = "snd (explorationRound e cfg rnd a)"
  have c: "fst (explorationRound e cfg rnd a) = Completed"
    by (rule explorationRound_batch(1) [OF assms(2-4)])
  then have r: "explorationRound e cfg rnd a = (Completed, ?a')"
    by (simp add: prod_eq_iff)
  have h: "history ?a' = history a @ AssistantMessage msg # map (toolResultMessage e) calls"
    by (rule explorationRound_batch(2) [OF assms(2-4)])
  have m: "\<forall>toolCall\<in>set calls. \<forall>err. callOutcome e toolCall = Inl err \<longrightarrow>
      toolResultMessage e toolCall = ToolMessage (call_id toolCall) (''Error: '' @ err)"
    by (simp add: toolResultMessage_def)
  note l = explorationLoop_completed [OF assms(1) r]
  from c h m l show ?thesis by blast
qed

theorem exploration_tool_failure_isolated_witness:
  "history (snd (explorationRound
      (demo_env [calls_reply 10 [call ''c1'' ''search_code'' ''{}'',
                                 call ''c2'' ''list_files'' ''{'',
                                 call ''c3'' ''list_files'' ''{}'']] silent_reply)
      (demo_cfg 3) 0 (started ''s'' ''u''))) =
     [SystemMessage ''s'', UserMessage ''u'',
      AssistantMessage \<lparr>content = None,
        tool_calls = Some [call ''c1'' ''search_code'' ''{}'',
                           call ''c2'' ''list_files'' ''{'',
                           call ''c3'' ''list_files'' ''{}'']\<rparr>,
      ToolMessage ''c1'' ''Error: file not found'',
      ToolMessage ''c2'' ''Error: Unexpected end of JSON input'',
      ToolMessage ''c3'' ''[]''] \<and>
   explorationLoop
      (demo_env [calls_reply 10 [call ''c1'' ''search_code'' ''{}'',
                                 call ''c2'' ''list_files'' ''{'',
                                 call ''c3'' ''list_files'' ''{}'']] silent_reply)
      (demo_cfg 3) 0 (started ''s'' ''u'') =
   explorationLoop
      (demo_env [calls_reply 10 [call ''c1'' ''search_code'' ''{}'',
                                 call ''c2'' ''list_files'' ''{'',
                                 call ''c3'' ''list_files'' ''{}'']] silent_reply)
      (demo_cfg 3) (0 + 1)
      (snd (explorationRound
        (demo_env [calls_reply 10 [call ''c1'' ''search_code'' ''{}'',
                                   call ''c2'' ''list_files'' ''{'',
                                   call ''c3'' ''list_files'' ''{}'']] silent_reply)
        (demo_cfg 3) 0 (started ''s'' ''u'')))"
proof -
  let ?calls = "[call ''c1'' ''search_code'' ''{}'', call ''c2'' ''list_files'' ''{'',
                 call ''c3'' ''list_files'' ''{}'']"
  let ?e = "demo_env [calls_reply 10 ?calls] silent_reply"
  let ?msg = "\<lparr>content = None, tool_calls = Some ?calls\<rparr>"
  let ?a' = "snd (explorationRound ?e (demo_cfg 3) 0 (started ''s'' ''u''))"
  have lt: "0 < maxRounds (demo_cfg 3)"
    by (simp add: demo_defs)
  have c: "create ?e (chatRequest ?e (demo_cfg 3) (started ''s'' ''u'') Auto) =
      Inr (calls_reply 10 ?calls)"
    by (simp add: demo_defs run_defs)
  have m: "choices (calls_reply 10 ?calls) = ?msg # []"
    by (simp add: calls_reply_def)
  have t: "tool_calls ?msg = Some ?calls"
    by simp
  note inst = exploration_tool_failure_isolated [OF lt c m t]
  have ms: "map (toolResultMessage ?e) ?calls =
      [ToolMessage ''c1'' ''Error: file not found'',
       ToolMessage ''c2'' ''Error: Unexpected end of JSON input'',
       ToolMessage ''c3'' ''[]'']"
    by (simp add: toolResultMessage_def callOutcome_def execute_def demo_defs)
  have nf: "\<not> finishCalled (tools ?a')" and nb: "\<not> overBudget (demo_cfg 3) ?a'"
    by (simp_all add: demo_defs run_defs)
  from inst have "history ?a' =
      history (started ''s'' ''u'') @ AssistantMessage ?msg # map (toolResultMessage ?e) ?calls"
    by blast
  then have 1: "history ?a' =
     [SystemMessage ''s'', UserMessage ''u'', AssistantMessage ?msg,
      ToolMessage ''c1'' ''Error: file not found'',
      ToolMessage ''c2'' ''Error: Unexpected end of JSON input'',
      ToolMessage ''c3'' ''[]'']"
    by (simp only: ms) (simp add: started_def new_AgenticAnalyzer_def)
  from inst have "explorationLoop ?e (demo_cfg 3) 0 (started ''s'' ''u'') =
      (if finishCalled (tools ?a') then (Completed, ?a')
       else if overBudget (demo_cfg 3) ?a' then forceCompletion ?e (demo_cfg 3) ?a'
       else explorationLoop ?e (demo_cfg 3) (0 + 1) ?a')"
    by blast
  then have 2: "explorationLoop ?e (demo_cfg 3) 0 (started ''s'' ''u'') =
      explorationLoop ?e (demo_cfg 3) (0 + 1) ?a'"
    by (simp only: nf nb if_False)
  from 1 2 show ?thesis by blast
qed

text \<open>
  The claim as stated fails in the forcing round: the first call's arguments do not
  parse, the error ends the run with status \<open>Error\<close>, the second call is never dispatched
  (the finish flag stays unset) and no tool message is pushed.
\<close>

theorem forced_tool_failure_counterexample:
  "status (fst (analyze
      (demo_env [text_reply 10]
         (calls_reply 5 [call ''b1'' ''finish_analysis'' ''{'',
                         call ''f2'' ''finish_analysis'' ''{}'']))
      (demo_cfg 1) ''s'' ''u'' new_AgenticAnalyzer)) = Error \<and>
   error (fst (analyze
      (demo_env [text_reply 10]
         (calls_reply 5 [call ''b1'' ''finish_analysis'' ''{'',
                         call ''f2'' ''finish_analysis'' ''{}'']))
      (demo_cfg 1) ''s'' ''u'' new_AgenticAnalyzer)) = Some ''Unexpected end of JSON input'' \<and>
   \<not> finishCalled (tools (snd (analyze
      (demo_env [text_reply 10]
         (calls_reply 5 [call ''b1'' ''finish_analysis'' ''{'',
                         call ''f2'' ''finish_analysis'' ''{}'']))
      (demo_cfg 1) ''s'' ''u'' new_AgenticAnalyzer))) \<and>
   history (snd (analyze
      (demo_env [text_reply 10]
         (calls_reply 5 [call ''b1'' ''finish_analysis'' ''{'',
                         call ''f2'' ''finish_analysis'' ''{}'']))
      (demo_cfg 1) ''s'' ''u'' new_AgenticAnalyzer)) =
     [SystemMessage ''s'', UserMessage ''u'',
      AssistantMessage \<lparr>content = Some ''thinking'', tool_calls = None\<rparr>,
      UserMessage force_prompt]"
  by (simp add: demo_defs run_defs)

section \<open>Entering the forcing round\<close>

lemma forceCompletion_requests:
  assumes "\<forall>q\<in>set (sent b). tool_choice q = Auto"
  shows "sent (snd (forceCompletion e cfg b)) \<noteq> [] \<and>
         tool_choice (last (sent (snd (forceCompletion e cfg b)))) = Function ''finish_analysis'' \<and>
         (\<forall>q\<in>set (butlast (sent (snd (forceCompletion e cfg b)))). tool_choice q = Auto) \<and>
         messages (last (sent (snd (forceCompletion e cfg b)))) =
           history (snd (forceCompletion e cfg b)) \<and>
         last (history (snd (forceCompletion e cfg b))) = UserMessage force_prompt"
  using assms by (simp add: forceCompletion_sent forceCompletion_history chatRequest_def)

lemma forcing_requests_from:
  assumes "\<forall>q\<in>set (sent a). tool_choice q = Auto"
  shows "(\<forall>q\<in>set (sent (snd (explorationLoop e cfg k a))). tool_choice q = Auto) \<or>
         (tool_choice (last (sent (snd (explorationLoop e cfg k a)))) = Function ''finish_analysis'' \<and>
          (\<forall>q\<in>set (butlast (sent (snd (explorationLoop e cfg k a)))). tool_choice q = Auto) \<and>
          messages (last (sent (snd (explorationLoop e cfg k a)))) =
            history (snd (explorationLoop e cfg k a)) \<and>
          last (history (snd (explorationLoop e cfg k a))) = UserMessage force_prompt)"
  using assms
proof (induction "maxRounds cfg - k" arbitrary: k a)
  case 0
  then have "explorationLoop e cfg k a = forceCompletion e cfg a"
    by (simp add: explorationLoop_exit)
  then show ?case using forceCompletion_requests [OF "0.prems"] by simp
next
  case (Suc n)
  then have lt: "k < maxRounds cfg" by simp
  obtain c a' where r: "explorationRound e cfg k a = (c, a')"
    by (cases "explorationRound e cfg k a")
  have auto': "\<forall>q\<in>set (sent a'). tool_choice q = Auto"
    using explorationRound_sent [of e cfg k a] r Suc.prems by simp
  show ?case
  proof (cases c)
    case (Thrown err)
    then show ?thesis using explorationLoop_thrown [OF lt] r auto' by simp
  next
    case Completed
    have n: "n = maxRounds cfg - (k + 1)" using Suc.hyps(2) by simp
    note ih = Suc.hyps(1) [OF n auto']
    note step = explorationLoop_completed [OF lt r [unfolded Completed]]
    show ?thesis
    proof (cases "finishCalled (tools a')")
      case True
      then show ?thesis using step auto' by simp
    next
      case nf: False
      show ?thesis
      proof (cases "overBudget cfg a'")
        case True
        then show ?thesis using step nf forceCompletion_requests [OF auto'] by simp
      next
        case False
        then show ?thesis using step nf ih by simp
      qed
    qed
  qed
qed

lemma forcing_iff_from:
  assumes "loopHead e cfg a0 k = Some a"
    and "\<forall>q\<in>set (sent a). tool_choice q = Auto"
  shows "(\<exists>q\<in>set (sent (snd (explorationLoop e cfg k a))). tool_choice q \<noteq> Auto) \<longleftrightarrow>
         (\<exists>k' b. k \<le> k' \<and> loopHead e cfg a0 k' = Some b \<and>
            (k' = maxRounds cfg \<or>
             (\<exists>a'. explorationRound e cfg k' b = (Completed, a') \<and>
                   \<not> finishCalled (tools a') \<and> overBudget cfg a')))"
    (is "?L k a \<longleftrightarrow> ?R k")
  using assms
proof (induction "maxRounds cfg - k" arbitrary: k a)
  case 0
  have "k \<le> maxRounds cfg" by (rule loopHead_le [OF "0.prems"(1)])
  with "0.hyps" have k: "k = maxRounds cfg" by simp
  then have "explorationLoop e cfg k a = forceCompletion e cfg a"
    by (simp add: explorationLoop_exit)
  then have "?L k a" by (simp add: forceCompletion_sent)
  moreover have "?R k" using "0.prems"(1) k by blast
  ultimately show ?case by simp
next
  case (Suc n)
  then have lt: "k < maxRounds cfg" by simp
  obtain c a' where r: "explorationRound e cfg k a = (c, a')"
    by (cases "explorationRound e cfg k a")
  have auto': "\<forall>q\<in>set (sent a'). tool_choice q = Auto"
    using explorationRound_sent [of e cfg k a] r Suc.prems(2) by simp
  have next_head: "loopHead e cfg a0 (Suc k) =
      (case c of Thrown err \<Rightarrow> None
       | Completed \<Rightarrow> if finishCalled (tools a') \<or> overBudget cfg a' then None else Some a')"
    using Suc.prems(1) lt r by (simp split: completion.splits)
  have later: "Suc k \<le> k'" if "k \<le> k'" and "k' \<noteq> k" for k'
    using that by simp
  show ?case
  proof (cases "c = Completed \<and> \<not> finishCalled (tools a')")
    case stop: False
    have l: "\<not> ?L k a"
    proof (cases c)
      case (Thrown err)
      then show ?thesis using explorationLoop_thrown [OF lt] r auto' by simp
    next
      case Completed
      with stop have "finishCalled (tools a')" by simp
      then show ?thesis
        using explorationLoop_completed [OF lt r [unfolded Completed]] auto' by simp
    qed
    have none: "loopHead e cfg a0 (Suc k) = None"
      using next_head stop by (cases c) simp_all
    have "\<not> ?R k"
    proof
      assume "?R k"
      then obtain k' b where le: "k \<le> k'" and b: "loopHead e cfg a0 k' = Some b"
        and en: "k' = maxRounds cfg \<or>
             (\<exists>a'. explorationRound e cfg k' b = (Completed, a') \<and>
                   \<not> finishCalled (tools a') \<and> overBudget cfg a')"
        by blast
      show False
      proof (cases "k' = k")
        case True
        with b Suc.prems(1) have "b = a" by simp
        with en True lt r stop show False by auto
      next
        case False
        then have "Suc k \<le> k'" using le by simp
        then have "loopHead e cfg a0 k' = None" by (rule loopHead_None_mono [OF none])
        with b show False by simp
      qed
    qed
    with l show ?thesis by simp
  next
    case go: True
    then have rc: "explorationRound e cfg k a = (Completed, a')" and nf: "\<not> finishCalled (tools a')"
      using r by simp_all
    note step = explorationLoop_completed [OF lt rc]
    show ?thesis
    proof (cases "overBudget cfg a'")
      case True
      then have "explorationLoop e cfg k a = forceCompletion e cfg a'"
        using step nf by simp
      then have "?L k a" by (simp add: forceCompletion_sent)
      moreover have "?R k" using Suc.prems(1) rc nf True by blast
      ultimately show ?thesis by simp
    next
      case False
      have head': "loopHead e cfg a0 (Suc k) = Some a'"
        using next_head go False by simp
      have n: "n = maxRounds cfg - Suc k" using Suc.hyps(2) by simp
      have ih: "?L (Suc k) a' \<longleftrightarrow> ?R (Suc k)"
        by (rule Suc.hyps(1) [OF n head' auto'])
      have "explorationLoop e cfg k a = explorationLoop e cfg (Suc k) a'"
        using step nf False by simp
      then have l: "?L k a \<longleftrightarrow> ?L (Suc k) a'" by simp
      have "?R k \<longleftrightarrow> ?R (Suc k)"
      proof
        assume "?R (Suc k)"
        then obtain k' b where "Suc k \<le> k'" and "loopHead e cfg a0 k' = Some b"
          and "k' = maxRounds cfg \<or>
             (\<exists>a'. explorationRound e cfg k' b = (Completed, a') \<and>
                   \<not> finishCalled (tools a') \<and> overBudget cfg a')"
          by blast
        moreover from this(1) have "k \<le> k'" by simp
        ultimately show "?R k" by blast
      next
        assume "?R k"
        then obtain k' b where le: "k \<le> k'" and b: "loopHead e cfg a0 k' = Some b"
          and en: "k' = maxRounds cfg \<or>
             (\<exists>a'. explorationRound e cfg k' b = (Completed, a') \<and>
                   \<not> finishCalled (tools a') \<and> overBudget cfg a')"
          by blast
        have "k' \<noteq> k"
        proof
          assume "k' = k"
          with b Suc.prems(1) have "b = a" by simp
          with en \<open>k' = k\<close> lt rc False show False by auto
        qed
        with le have "Suc k \<le> k'" by simp
        with b en show "?R (Suc k)" by blast
      qed
      with l ih show ?thesis by simp
    qed
  qed
qed

text \<open>
  C5, as amended. The threshold ratio is the constant 0.8 of the code, not a field of the
  configuration. A run of \<open>analyze\<close> on a fresh analyzer sends a request with pinned tool
  choice exactly when the loop reaches a round \<open>k\<close> such that either \<open>k = maxRounds\<close> (all
  rounds used up), or round \<open>k\<close> returns normally without the finish flag and with
  \<open>totalTokens > tokenBudget * 0.8\<close>. When it does, that request is the last one of the
  run, its tool choice is the function \<open>finish_analysis\<close>, every earlier request has open
  tool choice, and it carries the whole history, ending with the instruction message.
\<close>

theorem forcing_round_entry:
  "((\<exists>q\<in>set (sent (snd (analyze e cfg systemPrompt userPrompt new_AgenticAnalyzer))).
       tool_choice q \<noteq> Auto) \<longleftrightarrow>
    (\<exists>k a. loopHead e cfg (started systemPrompt userPrompt) k = Some a \<and>
       (k = maxRounds cfg \<or>
        (\<exists>a'. explorationRound e cfg k a = (Completed, a') \<and> \<not> finishCalled (tools a') \<and>
              real (tokenBudget cfg) * 0.8 < real (totalTokens (usage a')))))) \<and>
   ((\<exists>q\<in>set (sent (snd (analyze e cfg systemPrompt userPrompt new_AgenticAnalyzer))).
       tool_choice q \<noteq> Auto) \<longrightarrow>
    tool_choice (last (sent (snd (analyze e cfg systemPrompt userPrompt new_AgenticAnalyzer))))
      = Function ''finish_analysis'' \<and>
    (\<forall>q\<in>set (butlast (sent (snd (analyze e cfg systemPrompt userPrompt new_AgenticAnalyzer)))).
       tool_choice q = Auto) \<and>
    messages (last (sent (snd (analyze e cfg systemPrompt userPrompt new_AgenticAnalyzer))))
      = history (snd (analyze e cfg systemPrompt userPrompt new_AgenticAnalyzer)) \<and>
    last (history (snd (analyze e cfg systemPrompt userPrompt new_AgenticAnalyzer)))
      = UserMessage force_prompt)"
proof -
  let ?a0 = "started systemPrompt userPrompt"
  have h0: "loopHead e cfg ?a0 0 = Some ?a0" by simp
  have s0: "\<forall>q\<in>set (sent ?a0). tool_choice q = Auto" by simp
  have fin: "snd (analyze e cfg systemPrompt userPrompt new_AgenticAnalyzer) =
      snd (explorationLoop e cfg 0 ?a0)"
    by (rule analyze_state)
  have 1: "(\<exists>q\<in>set (sent (snd (explorationLoop e cfg 0 ?a0))). tool_choice q \<noteq> Auto) \<longleftrightarrow>
    (\<exists>k a. loopHead e cfg ?a0 k = Some a \<and>
       (k = maxRounds cfg \<or>
        (\<exists>a'. explorationRound e cfg k a = (Completed, a') \<and> \<not> finishCalled (tools a') \<and>
              real (tokenBudget cfg) * 0.8 < real (totalTokens (usage a')))))"
    using forcing_iff_from [OF h0 s0] by (simp add: overBudget_def)
  have 2: "(\<exists>q\<in>set (sent (snd (explorationLoop e cfg 0 ?a0))). tool_choice q \<noteq> Auto) \<longrightarrow>
    tool_choice (last (sent (snd (explorationLoop e cfg 0 ?a0)))) = Function ''finish_analysis'' \<and>
    (\<forall>q\<in>set (butlast (sent (snd (explorationLoop e cfg 0 ?a0)))). tool_choice q = Auto) \<and>
    messages (last (sent (snd (explorationLoop e cfg 0 ?a0))))
      = history (snd (explorationLoop e cfg 0 ?a0)) \<and>
    last (history (snd (explorationLoop e cfg 0 ?a0))) = UserMessage force_prompt"
    using forcing_requests_from [OF s0, of e cfg 0] by blast
  from 1 2 show ?thesis unfolding fin by (rule conjI)
qed

theorem forcing_round_entry_witness:
  "tool_choice (last (sent (snd (analyze
      (demo_env [text_reply 500, text_reply 400, text_reply 1] silent_reply)
      (demo_cfg 5) ''s'' ''u'' new_AgenticAnalyzer)))) = Function ''finish_analysis'' \<and>
   length (sent (snd (analyze
      (demo_env [text_reply 500, text_reply 400, text_reply 1] silent_reply)
      (demo_cfg 5) ''s'' ''u'' new_AgenticAnalyzer))) = 3 \<and>
   totalTokens (usage (snd (analyze
      (demo_env [text_reply 500, text_reply 400, text_reply 1] silent_reply)
      (demo_cfg 5) ''s'' ''u'' new_AgenticAnalyzer))) = 900"
proof -
  let ?e = "demo_env [text_reply 500, text_reply 400, text_reply 1] silent_reply"
  let ?a = "the (loopHead ?e (demo_cfg 5) (started ''s'' ''u'') (Suc 0))"
  let ?a' = "snd (explorationRound ?e (demo_cfg 5) (Suc 0) ?a)"
  let ?final = "snd (analyze ?e (demo_cfg 5) ''s'' ''u'' new_AgenticAnalyzer)"
  have h: "loopHead ?e (demo_cfg 5) (started ''s'' ''u'') (Suc 0) = Some ?a"
    by (simp add: demo_defs run_defs)
  have "fst (explorationRound ?e (demo_cfg 5) (Suc 0) ?a) = Completed"
    by (simp add: demo_defs run_defs)
  then have r: "explorationRound ?e (demo_cfg 5) (Suc 0) ?a = (Completed, ?a')"
    by (simp add: prod_eq_iff)
  have nf: "\<not> finishCalled (tools ?a')"
    by (simp add: demo_defs run_defs)
  have ob: "real (tokenBudget (demo_cfg 5)) * 0.8 < real (totalTokens (usage ?a'))"
    by (simp add: demo_defs run_defs)
  from h r nf ob have "\<exists>k a. loopHead ?e (demo_cfg 5) (started ''s'' ''u'') k = Some a \<and>
       (k = maxRounds (demo_cfg 5) \<or>
        (\<exists>a'. explorationRound ?e (demo_cfg 5) k a = (Completed, a') \<and>
              \<not> finishCalled (tools a') \<and>
              real (tokenBudget (demo_cfg 5)) * 0.8 < real (totalTokens (usage a'))))"
    by blast
  with forcing_round_entry [of ?e "demo_cfg 5" "''s''" "''u''"]
  have 1: "tool_choice (last (sent ?final)) = Function ''finish_analysis''"
    by blast
  have 2: "length (sent ?final) = 3"
    by (simp add: demo_defs run_defs)
  have 3: "totalTokens (usage ?final) = 900"
    by (simp add: demo_defs run_defs)
  from 1 2 3 show ?thesis by blast
qed

text \<open>
  The claim as stated fails in both directions. With \<open>maxRounds = 1\<close> and no tokens
  reported, the forcing request is sent although \<open>totalTokens\<close> is 0, below the threshold
  for any positive ratio. And when the round that crosses the threshold (900 of 1000
  tokens) also executes \<open>finish_analysis\<close>, no forcing request is sent.
\<close>

theorem forcing_exactly_on_threshold_counterexample:
  "map tool_choice (sent (snd (analyze (demo_env [silent_reply] silent_reply) (demo_cfg 1)
      ''s'' ''u'' new_AgenticAnalyzer))) = [Auto, Function ''finish_analysis''] \<and>
   totalTokens (usage (snd (analyze (demo_env [silent_reply] silent_reply) (demo_cfg 1)
      ''s'' ''u'' new_AgenticAnalyzer))) = 0 \<and>
   tokenBudget (demo_cfg 1) = 1000 \<and>
   map tool_choice (sent (snd (analyze
      (demo_env [calls_reply 900 [call ''f1'' ''finish_analysis'' ''{}'']] silent_reply)
      (demo_cfg 3) ''s'' ''u'' new_AgenticAnalyzer))) = [Auto] \<and>
   totalTokens (usage (snd (analyze
      (demo_env [calls_reply 900 [call ''f1'' ''finish_analysis'' ''{}'']] silent_reply)
      (demo_cfg 3) ''s'' ''u'' new_AgenticAnalyzer))) = 900 \<and>
   tokenBudget (demo_cfg 3) = 1000"
  by (simp add: demo_defs run_defs)

end
